theory Spec2Isabelle
  imports Complex_Main "HOL-Library.Word"
begin

section \<open>JavaScript values used by the report policy and the report lifecycle\<close>

text \<open>
  Strings are lists of 8-bit characters: HTTP header values reach the policy decoded one
  byte per character, and environment variables and document identifiers are ASCII.
  A value that may be \<^verbatim>\<open>undefined\<close> is an option. The timestamp, an integer, is an
  \<^typ>\<open>int\<close>; coordinates and distances are doubles, modelled below.
\<close>

text \<open>\<^verbatim>\<open>!x\<close> on a string that may be undefined: undefined and the empty string are falsy.\<close>

definition truthy :: "string option \<Rightarrow> bool" where
  "truthy s = (case s of None \<Rightarrow> False | Some v \<Rightarrow> v \<noteq> [])"

subsection \<open>\<^verbatim>\<open>parseInt(s, 10)\<close>\<close>

text \<open>
  ECMAScript \<^verbatim>\<open>parseInt\<close> with radix 10: leading white space is skipped, one sign is
  read, then the longest run of decimal digits; what follows the digits is ignored. With no
  digit the result is NaN, here \<open>None\<close>.
\<close>

definition isStrWhiteSpaceChar :: "char \<Rightarrow> bool" where
  "isStrWhiteSpaceChar c =
     (of_char c \<in> {9::nat, 10, 11, 12, 13, 32, 160})"

definition isDecimalDigit :: "char \<Rightarrow> bool" where
  "isDecimalDigit c = (48 \<le> (of_char c :: nat) \<and> (of_char c :: nat) \<le> 57)"

definition digitsValue :: "string \<Rightarrow> int" where
  "digitsValue Z = foldl (\<lambda>acc c. 10 * acc + (int (of_char c) - 48)) 0 Z"

definition parseInt10 :: "string \<Rightarrow> int option" where
  "parseInt10 inputString =
     (let S = dropWhile isStrWhiteSpaceChar inputString;
          sign = (if S \<noteq> [] \<and> hd S = CHR ''-'' then - 1 else 1);
          S' = (if S \<noteq> [] \<and> (hd S = CHR ''+'' \<or> hd S = CHR ''-'') then tl S else S);
          Z = takeWhile isDecimalDigit S'
      in if Z = [] then None else Some (sign * digitsValue Z))"

subsection \<open>Dates\<close>

text \<open>
  A \<^verbatim>\<open>Date\<close> object is its time value in milliseconds since the epoch, or \<open>None\<close> for
  an Invalid Date (time value NaN). The constructor \<^verbatim>\<open>new Date(string)\<close> belongs to the
  JavaScript runtime; the lifecycle takes it as the parameter \<open>newDate\<close>.
  \<^verbatim>\<open>a <= b\<close> on two dates compares the time values, and is false when either is NaN.
\<close>

type_synonym js_date = "int option"

definition date_le :: "js_date \<Rightarrow> js_date \<Rightarrow> bool" where
  "date_le a b = (case (a, b) of (Some x, Some y) \<Rightarrow> x \<le> y | _ \<Rightarrow> False)"

text \<open>
  One instance of the constructor, used to run the lifecycle on concrete timestamps: the
  ECMAScript date-time format \<^verbatim>\<open>YYYY-MM-DDTHH:mm:ssZ\<close> in UTC with valid calendar fields.
  Every other string is an Invalid Date for this instance.
\<close>

definition decimalField :: "string \<Rightarrow> int option" where
  "decimalField s = (if s \<noteq> [] \<and> list_all isDecimalDigit s then Some (digitsValue s) else None)"

definition isLeapYear :: "int \<Rightarrow> bool" where
  "isLeapYear y = (y mod 4 = 0 \<and> (y mod 100 \<noteq> 0 \<or> y mod 400 = 0))"

definition daysInMonth :: "int \<Rightarrow> int \<Rightarrow> int" where
  "daysInMonth y m =
     (if m = 2 then (if isLeapYear y then 29 else 28)
      else if m = 4 \<or> m = 6 \<or> m = 9 \<or> m = 11 then 30 else 31)"

text \<open>Days from 1970-01-01 to the given day of the proleptic Gregorian calendar.\<close>

definition daysFromCivil :: "int \<Rightarrow> int \<Rightarrow> int \<Rightarrow> int" where
  "daysFromCivil y m d =
     (let y' = (if m \<le> 2 then y - 1 else y);
          era = y' div 400;
          yoe = y' - era * 400;
          doy = (153 * ((m + 9) mod 12) + 2) div 5 + d - 1;
          doe = yoe * 365 + yoe div 4 - yoe div 100 + doy
      in era * 146097 + doe - 719468)"

definition isoUtcDate :: "string \<Rightarrow> js_date" where
  "isoUtcDate s =
     (if length s = 20 \<and> s ! 4 = CHR ''-'' \<and> s ! 7 = CHR ''-'' \<and> s ! 10 = CHR ''T'' \<and>
         s ! 13 = CHR '':'' \<and> s ! 16 = CHR '':'' \<and> s ! 19 = CHR ''Z''
      then
        (case (decimalField (take 4 s), decimalField (take 2 (drop 5 s)),
               decimalField (take 2 (drop 8 s)), decimalField (take 2 (drop 11 s)),
               decimalField (take 2 (drop 14 s)), decimalField (take 2 (drop 17 s))) of
           (Some y, Some mo, Some d, Some h, Some mi, Some sec) \<Rightarrow>
             if 1 \<le> mo \<and> mo \<le> 12 \<and> 1 \<le> d \<and> d \<le> daysInMonth y mo \<and>
                h \<le> 23 \<and> mi \<le> 59 \<and> sec \<le> 59
             then Some ((((daysFromCivil y mo d * 24 + h) * 60 + mi) * 60 + sec) * 1000)
             else None
         | _ \<Rightarrow> None)
      else None)"

subsection \<open>Buffers, hex and the timing-safe comparison\<close>

type_synonym byte = "8 word"

datatype exn = StoreError | RangeError

definition hexDigit :: "nat \<Rightarrow> char" where
  "hexDigit n = ''0123456789abcdef'' ! n"

text \<open>\<^verbatim>\<open>digest("hex")\<close>: two lower-case hex digits per byte.\<close>

definition hexEncode :: "byte list \<Rightarrow> string" where
  "hexEncode bs = concat (map (\<lambda>b. [hexDigit (unat b div 16), hexDigit (unat b mod 16)]) bs)"

definition hexValue :: "char \<Rightarrow> nat option" where
  "hexValue c =
     (let n = (of_char c :: nat)
      in if 48 \<le> n \<and> n \<le> 57 then Some (n - 48)
         else if 97 \<le> n \<and> n \<le> 102 then Some (n - 87)
         else if 65 \<le> n \<and> n \<le> 70 then Some (n - 55)
         else None)"

text \<open>
  \<^verbatim>\<open>Buffer.from(s, "hex")\<close>: decodes pairs of hex digits and stops, without an error, at the
  first pair that is not two hex digits or at a trailing single character.
\<close>

fun bufferFromHex :: "string \<Rightarrow> byte list" where
  "bufferFromHex (a # b # rest) =
     (case hexValue a of
        None \<Rightarrow> []
      | Some h \<Rightarrow>
          (case hexValue b of
             None \<Rightarrow> []
           | Some l \<Rightarrow> of_nat (16 * h + l) # bufferFromHex rest))"
| "bufferFromHex [a] = []"
| "bufferFromHex [] = []"

text \<open>\<^verbatim>\<open>crypto.timingSafeEqual(a, b)\<close> throws a RangeError when the lengths differ.\<close>

definition timingSafeEqual :: "byte list \<Rightarrow> byte list \<Rightarrow> exn + bool" where
  "timingSafeEqual a b = (if length a \<noteq> length b then Inl RangeError else Inr (a = b))"

section \<open>Numbers\<close>

text \<open>
  A JavaScript number is an IEEE double: NaN, an infinity, or a finite value, here the real
  number it denotes (the sign of a zero is not modelled; it matters only in a division by
  zero and in \<^verbatim>\<open>atan2\<close> at zero). What IEEE 754 fixes exactly is defined: NaN and the
  infinities in every operation, overflow, the comparison. What depends on the runtime is a
  parameter: the rounding of a finite result to a double, the values of \<^verbatim>\<open>Math.sin\<close>,
  \<^verbatim>\<open>Math.cos\<close> and \<^verbatim>\<open>Math.atan2\<close>, and the conversion of a string to a number.
\<close>

datatype js_number = NaN | Infinity | MinusInfinity | Finite real

record runtime =
  rt_round :: "real \<Rightarrow> real"
  rt_sin :: "real \<Rightarrow> real"
  rt_cos :: "real \<Rightarrow> real"
  rt_atan2 :: "js_number \<Rightarrow> js_number \<Rightarrow> real"
  rt_string_to_number :: "string \<Rightarrow> js_number"

text \<open>An exact result at or beyond \<open>2^1024 - 2^970\<close> in magnitude rounds to an infinity.\<close>

definition overflowThreshold :: real where
  "overflowThreshold = 2 ^ 1024 - 2 ^ 970"

definition toDouble :: "runtime \<Rightarrow> real \<Rightarrow> js_number" where
  "toDouble rt r =
     (if overflowThreshold \<le> r then Infinity
      else if r \<le> - overflowThreshold then MinusInfinity
      else Finite (rt_round rt r))"

definition isNegative :: "js_number \<Rightarrow> bool" where
  "isNegative x = (case x of MinusInfinity \<Rightarrow> True | Finite a \<Rightarrow> a < 0 | _ \<Rightarrow> False)"

definition num_neg :: "js_number \<Rightarrow> js_number" where
  "num_neg x =
     (case x of NaN \<Rightarrow> NaN | Infinity \<Rightarrow> MinusInfinity | MinusInfinity \<Rightarrow> Infinity
      | Finite a \<Rightarrow> Finite (- a))"

text \<open>\<^verbatim>\<open>x + y\<close>\<close>

fun num_add :: "runtime \<Rightarrow> js_number \<Rightarrow> js_number \<Rightarrow> js_number" where
  "num_add rt NaN y = NaN"
| "num_add rt x NaN = NaN"
| "num_add rt (Finite a) (Finite b) = toDouble rt (a + b)"
| "num_add rt Infinity MinusInfinity = NaN"
| "num_add rt MinusInfinity Infinity = NaN"
| "num_add rt Infinity y = Infinity"
| "num_add rt MinusInfinity y = MinusInfinity"
| "num_add rt x Infinity = Infinity"
| "num_add rt x MinusInfinity = MinusInfinity"

text \<open>\<^verbatim>\<open>x - y\<close>\<close>

definition num_sub :: "runtime \<Rightarrow> js_number \<Rightarrow> js_number \<Rightarrow> js_number" where
  "num_sub rt x y = num_add rt x (num_neg y)"

text \<open>\<^verbatim>\<open>x * y\<close>: an infinity times zero is NaN, otherwise the signs decide.\<close>

fun num_mul :: "runtime \<Rightarrow> js_number \<Rightarrow> js_number \<Rightarrow> js_number" where
  "num_mul rt NaN y = NaN"
| "num_mul rt x NaN = NaN"
| "num_mul rt (Finite a) (Finite b) = toDouble rt (a * b)"
| "num_mul rt x y =
     (if x = Finite 0 \<or> y = Finite 0 then NaN
      else if isNegative x = isNegative y then Infinity else MinusInfinity)"

text \<open>
  \<^verbatim>\<open>x / y\<close>. A division by zero is taken as a division by \<open>+0\<close>; the code divides by the
  constants 2 and 180 only.
\<close>

fun num_div :: "runtime \<Rightarrow> js_number \<Rightarrow> js_number \<Rightarrow> js_number" where
  "num_div rt NaN y = NaN"
| "num_div rt x NaN = NaN"
| "num_div rt (Finite a) (Finite b) =
     (if b = 0 then (if a = 0 then NaN else if a < 0 then MinusInfinity else Infinity)
      else toDouble rt (a / b))"
| "num_div rt (Finite a) y = Finite 0"
| "num_div rt x (Finite b) = (if isNegative x = (b < 0) then Infinity else MinusInfinity)"
| "num_div rt x y = NaN"

text \<open>\<^verbatim>\<open>x > y\<close>: false when either is NaN.\<close>

fun num_gt :: "js_number \<Rightarrow> js_number \<Rightarrow> bool" where
  "num_gt NaN y = False"
| "num_gt x NaN = False"
| "num_gt (Finite a) (Finite b) = (b < a)"
| "num_gt Infinity y = (y \<noteq> Infinity)"
| "num_gt MinusInfinity y = False"
| "num_gt x Infinity = False"
| "num_gt x MinusInfinity = True"

text \<open>\<^verbatim>\<open>Math.PI\<close>, the double 3.141592653589793.\<close>

definition Math_PI :: js_number where
  "Math_PI = Finite (884279719003555 / 2 ^ 48)"

text \<open>\<^verbatim>\<open>Math.sin\<close> and \<^verbatim>\<open>Math.cos\<close>: NaN at NaN and at the infinities.\<close>

definition Math_sin :: "runtime \<Rightarrow> js_number \<Rightarrow> js_number" where
  "Math_sin rt x = (case x of Finite a \<Rightarrow> Finite (rt_sin rt a) | _ \<Rightarrow> NaN)"

definition Math_cos :: "runtime \<Rightarrow> js_number \<Rightarrow> js_number" where
  "Math_cos rt x = (case x of Finite a \<Rightarrow> Finite (rt_cos rt a) | _ \<Rightarrow> NaN)"

text \<open>\<^verbatim>\<open>Math.sqrt\<close>: NaN at NaN and at every negative number.\<close>

definition Math_sqrt :: "runtime \<Rightarrow> js_number \<Rightarrow> js_number" where
  "Math_sqrt rt x =
     (case x of
        NaN \<Rightarrow> NaN
      | MinusInfinity \<Rightarrow> NaN
      | Infinity \<Rightarrow> Infinity
      | Finite a \<Rightarrow> if a < 0 then NaN else Finite (rt_round rt (sqrt a)))"

text \<open>\<^verbatim>\<open>Math.atan2(y, x)\<close>: NaN when either argument is, a finite angle otherwise.\<close>

definition Math_atan2 :: "runtime \<Rightarrow> js_number \<Rightarrow> js_number \<Rightarrow> js_number" where
  "Math_atan2 rt y x = (if y = NaN \<or> x = NaN then NaN else Finite (rt_atan2 rt y x))"

text \<open>
  A value of the parsed JSON body where the code expects a number. \<^verbatim>\<open>JSON.parse\<close> gives
  a finite number or, for a literal such as \<^verbatim>\<open>1e999\<close>, an infinity. In arithmetic the
  value is converted by \<^verbatim>\<open>ToNumber\<close>: null is 0, false and true are 0 and 1. Arrays and
  objects are not modelled.
\<close>

datatype json = JsonNull | JsonBool bool | JsonNumber js_number | JsonString string

definition toNumber :: "runtime \<Rightarrow> json \<Rightarrow> js_number" where
  "toNumber rt v =
     (case v of
        JsonNull \<Rightarrow> Finite 0
      | JsonBool b \<Rightarrow> Finite (if b then 1 else 0)
      | JsonNumber n \<Rightarrow> n
      | JsonString s \<Rightarrow> rt_string_to_number rt s)"

section \<open>Geographic utilities\<close>

definition EARTH_RADIUS_METERS :: js_number where
  "EARTH_RADIUS_METERS = Finite 6371000"

definition toRadians :: "runtime \<Rightarrow> js_number \<Rightarrow> js_number" where
  "toRadians rt degrees = num_mul rt degrees (num_div rt Math_PI (Finite 180))"

text \<open>The local \<^verbatim>\<open>a\<close> of \<^verbatim>\<open>haversineDistance\<close>; products and sums associate to the left.\<close>

definition haversineA ::
  "runtime \<Rightarrow> js_number \<Rightarrow> js_number \<Rightarrow> js_number \<Rightarrow> js_number \<Rightarrow> js_number" where
  "haversineA rt lat1 lng1 lat2 lng2 =
     (let dLat = toRadians rt (num_sub rt lat2 lat1);
          dLng = toRadians rt (num_sub rt lng2 lng1)
      in num_add rt
           (num_mul rt (Math_sin rt (num_div rt dLat (Finite 2)))
                       (Math_sin rt (num_div rt dLat (Finite 2))))
           (num_mul rt
              (num_mul rt
                 (num_mul rt (Math_cos rt (toRadians rt lat1)) (Math_cos rt (toRadians rt lat2)))
                 (Math_sin rt (num_div rt dLng (Finite 2))))
              (Math_sin rt (num_div rt dLng (Finite 2)))))"

definition haversineDistance ::
  "runtime \<Rightarrow> js_number \<Rightarrow> js_number \<Rightarrow> js_number \<Rightarrow> js_number \<Rightarrow> js_number" where
  "haversineDistance rt lat1 lng1 lat2 lng2 =
     (let a = haversineA rt lat1 lng1 lat2 lng2;
          c = num_mul rt (Finite 2)
                (Math_atan2 rt (Math_sqrt rt a) (Math_sqrt rt (num_sub rt (Finite 1) a)))
      in num_mul rt EARTH_RADIUS_METERS c)"

section \<open>The document store\<close>

datatype SpringStatus = is_flowing | is_not_flowing | unknown

text \<open>
  One stored version of a spring. \<open>attributes\<close> stands for every field the policy and
  the lifecycle never name (title, description, relations, uncommitted edits).
\<close>

record SpringDocument =
  documentId :: string
  lat :: js_number
  lng :: js_number
  current_status :: SpringStatus
  status_updated_at :: "string option"
  updatedAt :: string
  attributes :: "(string \<times> string) list"

datatype version = Draft | Published

text \<open>The \<^verbatim>\<open>data\<close> object of an update: the fields it names, and \<open>updatedAt\<close> when given.\<close>

record update_data =
  data_current_status :: SpringStatus
  data_status_updated_at :: string
  data_updatedAt :: "string option"

text \<open>The calls the code makes on the store, with their arguments.\<close>

datatype store_call =
    FindOneReport string
  | FindOneSpring string version
  | DocumentsUpdate string update_data
  | DbQueryUpdate string update_data

datatype log_level = debug | info | warn | error

text \<open>The messages of the lifecycle, one constructor per template, with the interpolated values.\<close>

datatype log_message =
    NoSpringLinked string
  | Propagating string string
  | DraftNotFound string string
  | SkippingNotNewer string string "string option"
  | UpdatedDraftNotPublished string string SpringStatus
  | UpdatedPublished string string SpringStatus
  | UpdatedDraft string string SpringStatus
  | FailedToPropagate string "string option" exn

text \<open>
  Modelled from the spec: the store is an external collaborator (Strapi's Document Service and
  query engine), not code of this repository. Per spring identifier it holds a draft and an
  optional published version, addressable separately; per report identifier the identifier of
  the spring the report is linked to. \<open>store_fails\<close> says which calls throw. The world also
  records the log and the calls made, in order.
\<close>

record world =
  spring_draft :: "string \<Rightarrow> SpringDocument option"
  spring_published :: "string \<Rightarrow> SpringDocument option"
  report_spring :: "string \<Rightarrow> string option option"
  store_fails :: "store_call \<Rightarrow> bool"
  logged :: "(log_level \<times> log_message) list"
  calls :: "store_call list"

type_synonym 'a action = "world \<Rightarrow> (exn + 'a) \<times> world"

text \<open>Sequencing of awaited calls: a call that throws ends the sequence with its exception.\<close>

definition andThen :: "'a action \<Rightarrow> ('a \<Rightarrow> 'b action) \<Rightarrow> 'b action" where
  "andThen m f w = (case m w of (Inl e, w') \<Rightarrow> (Inl e, w') | (Inr x, w') \<Rightarrow> f x w')"

definition resolved :: "'a \<Rightarrow> 'a action" where
  "resolved x w = (Inr x, w)"

definition strapi_log :: "log_level \<Rightarrow> log_message \<Rightarrow> unit action" where
  "strapi_log l m w = (Inr (), w\<lparr>logged := logged w @ [(l, m)]\<rparr>)"

definition storeCall :: "store_call \<Rightarrow> (world \<Rightarrow> 'a \<times> world) \<Rightarrow> 'a action" where
  "storeCall c run w =
     (let w' = w\<lparr>calls := calls w @ [c]\<rparr>
      in if store_fails w c then (Inl StoreError, w')
         else (case run w' of (x, w'') \<Rightarrow> (Inr x, w'')))"

text \<open>
  Modelled from the spec: \<^verbatim>\<open>findSpring(id)\<close>, queryable per representation
  (\<^verbatim>\<open>strapi.documents('api::spring.spring').findOne({documentId, status})\<close>).
\<close>

definition findOneSpring :: "string \<Rightarrow> version \<Rightarrow> SpringDocument option action" where
  "findOneSpring docId v =
     storeCall (FindOneSpring docId v)
       (\<lambda>w. ((case v of Draft \<Rightarrow> spring_draft w docId | Published \<Rightarrow> spring_published w docId), w))"

text \<open>
  Modelled from the spec: \<^verbatim>\<open>findReport(id)\<close> with the spring relation populated
  (\<^verbatim>\<open>strapi.documents('api::report.report').findOne({documentId, populate: ['spring']})\<close>):
  \<open>None\<close> when there is no such report, \<open>Some None\<close> when it has no spring.
\<close>

definition findOneReport :: "string \<Rightarrow> string option option action" where
  "findOneReport docId = storeCall (FindOneReport docId) (\<lambda>w. (report_spring w docId, w))"

text \<open>
  Modelled from the spec: what a write does to one stored version. The fields named in the
  data are replaced; every other field keeps its value.
\<close>

definition applyData :: "update_data \<Rightarrow> SpringDocument \<Rightarrow> SpringDocument" where
  "applyData d doc =
     doc\<lparr>current_status := data_current_status d,
         status_updated_at := Some (data_status_updated_at d),
         updatedAt := (case data_updatedAt d of None \<Rightarrow> updatedAt doc | Some u \<Rightarrow> u)\<rparr>"

text \<open>
  Modelled from the spec: \<^verbatim>\<open>updateSpring(id, draft, fields)\<close>
  (\<^verbatim>\<open>strapi.documents('api::spring.spring').update({documentId, data})\<close>): writes the
  given fields of the draft version and nothing else; no effect when there is no draft.
\<close>

definition documentsUpdate :: "string \<Rightarrow> update_data \<Rightarrow> unit action" where
  "documentsUpdate docId d =
     storeCall (DocumentsUpdate docId d)
       (\<lambda>w. ((), w\<lparr>spring_draft := (spring_draft w)(docId := map_option (applyData d) (spring_draft w docId))\<rparr>))"

text \<open>
  Modelled from the spec: \<^verbatim>\<open>updateSpring(id, published, fields)\<close>
  (\<^verbatim>\<open>strapi.db.query('api::spring.spring').update({where: {documentId, publishedAt: {$notNull: true}}, data})\<close>):
  writes the given fields of the published version and nothing else; no effect when the
  spring has no published version.
\<close>

definition dbQueryUpdate :: "string \<Rightarrow> update_data \<Rightarrow> unit action" where
  "dbQueryUpdate docId d =
     storeCall (DbQueryUpdate docId d)
       (\<lambda>w. ((), w\<lparr>spring_published := (spring_published w)(docId := map_option (applyData d) (spring_published w docId))\<rparr>))"

section \<open>The policy is-authentic-report\<close>

definition TIMESTAMP_MAX_AGE_SECONDS :: int where
  "TIMESTAMP_MAX_AGE_SECONDS = 5 * 60"

definition MAX_DISTANCE_METERS :: js_number where
  "MAX_DISTANCE_METERS = Finite 500"

text \<open>
  \<^verbatim>\<open>crypto.createHmac("sha256", secret).update(payload)\<close> belongs to the runtime: the
  keyed digest is the parameter \<open>hm\<close>, from the secret and the payload to the 256 bits of
  the digest. \<open>digestBytes\<close> are its 32 bytes, the most significant first.
\<close>

type_synonym hmac = "string \<Rightarrow> string \<Rightarrow> 256 word"

definition digestBytes :: "256 word \<Rightarrow> byte list" where
  "digestBytes d = map (\<lambda>i. ucast (drop_bit (8 * (31 - i)) d)) [0..<32]"

definition generateExpectedSignature :: "hmac \<Rightarrow> string \<Rightarrow> string \<Rightarrow> string \<Rightarrow> string" where
  "generateExpectedSignature hm timestamp springDocumentId secret =
     (let payload = timestamp @ '':'' @ springDocumentId
      in hexEncode (digestBytes (hm secret payload)))"

text \<open>\<open>dateNow\<close> is \<^verbatim>\<open>Date.now()\<close>, in milliseconds.\<close>

definition isTimestampValid :: "int \<Rightarrow> int \<Rightarrow> bool" where
  "isTimestampValid dateNow timestamp =
     (let now = dateNow div 1000;
          age = now - timestamp
      in age \<ge> 0 \<and> age \<le> TIMESTAMP_MAX_AGE_SECONDS)"

text \<open>The request as the policy reads it: two headers and three fields of \<^verbatim>\<open>body.data\<close>.\<close>

record ReportRequest =
  x_app_signature :: "string option"
  x_timestamp :: "string option"
  data_spring :: "string option"
  data_user_lat :: "json option"
  data_user_lng :: "json option"

text \<open>Why a request was refused: one constructor per log message of the policy.\<close>

datatype rejection =
    MissingSignatureHeader
  | MissingTimestampHeader
  | InvalidTimestampFormat
  | TimestampExpired
  | MissingSpringDocumentId
  | HmacSecretNotConfigured
  | InvalidSignature
  | SpringNotFound
  | TooFarFromSpring

text \<open>What the policy returns: \<^verbatim>\<open>true\<close>, or \<^verbatim>\<open>false\<close> after logging the reason.\<close>

datatype verdict = Accepted | Rejected rejection

definition returned :: "verdict \<Rightarrow> bool" where
  "returned v = (v = Accepted)"

text \<open>
  The condition of the signature test,
  \<^verbatim>\<open>signatureBuffer.length !== expectedBuffer.length || !crypto.timingSafeEqual(...)\<close>:
  the comparison is evaluated only when the lengths agree.
\<close>

definition signatureMismatch :: "string \<Rightarrow> string \<Rightarrow> exn + bool" where
  "signatureMismatch signature expectedSignature =
     (let signatureBuffer = bufferFromHex signature;
          expectedBuffer = bufferFromHex expectedSignature
      in if length signatureBuffer \<noteq> length expectedBuffer then Inr True
         else (case timingSafeEqual signatureBuffer expectedBuffer of
                 Inl e \<Rightarrow> Inl e
               | Inr equal \<Rightarrow> Inr (\<not> equal)))"

text \<open>
  Step 5 of the policy, the geo-fence. A coordinate is absent when it is \<^verbatim>\<open>undefined\<close>;
  a coordinate that is null is present and counts as 0 in the distance.
\<close>

definition geoFence ::
  "runtime \<Rightarrow> json option \<Rightarrow> json option \<Rightarrow> string \<Rightarrow> world \<Rightarrow> exn + verdict" where
  "geoFence rt userLat userLng springDocumentId w =
     (case (userLat, userLng) of
        (Some uLat, Some uLng) \<Rightarrow>
          (case fst (findOneSpring springDocumentId Published w) of
             Inl e \<Rightarrow> Inl e
           | Inr None \<Rightarrow> Inr (Rejected SpringNotFound)
           | Inr (Some spring) \<Rightarrow>
               (let distance = haversineDistance rt (toNumber rt uLat) (toNumber rt uLng)
                                 (lat spring) (lng spring)
                in if num_gt distance MAX_DISTANCE_METERS then Inr (Rejected TooFarFromSpring)
                   else Inr Accepted))
      | _ \<Rightarrow> Inr Accepted)"

text \<open>
  The policy. \<open>hmacSecret\<close> is \<^verbatim>\<open>process.env.HMAC_SECRET\<close>. \<open>Inl\<close> is an exception
  that leaves the policy.
\<close>

definition isAuthenticReport ::
  "runtime \<Rightarrow> hmac \<Rightarrow> string option \<Rightarrow> int \<Rightarrow> ReportRequest \<Rightarrow> world \<Rightarrow> exn + verdict" where
  "isAuthenticReport rt hm hmacSecret dateNow request w =
     (case x_app_signature request of
        None \<Rightarrow> Inr (Rejected MissingSignatureHeader)
      | Some signature \<Rightarrow>
     if signature = [] then Inr (Rejected MissingSignatureHeader) else
     (case x_timestamp request of
        None \<Rightarrow> Inr (Rejected MissingTimestampHeader)
      | Some timestampHeader \<Rightarrow>
     if timestampHeader = [] then Inr (Rejected MissingTimestampHeader) else
     (case parseInt10 timestampHeader of
        None \<Rightarrow> Inr (Rejected InvalidTimestampFormat)
      | Some timestamp \<Rightarrow>
     if \<not> isTimestampValid dateNow timestamp then Inr (Rejected TimestampExpired) else
     (case data_spring request of
        None \<Rightarrow> Inr (Rejected MissingSpringDocumentId)
      | Some springDocumentId \<Rightarrow>
     if springDocumentId = [] then Inr (Rejected MissingSpringDocumentId) else
     (case hmacSecret of
        None \<Rightarrow> Inr (Rejected HmacSecretNotConfigured)
      | Some secret \<Rightarrow>
     if secret = [] then Inr (Rejected HmacSecretNotConfigured) else
     (let expectedSignature = generateExpectedSignature hm timestampHeader springDocumentId secret
      in case signatureMismatch signature expectedSignature of
           Inl e \<Rightarrow> Inl e
         | Inr True \<Rightarrow> Inr (Rejected InvalidSignature)
         | Inr False \<Rightarrow>
             geoFence rt (data_user_lat request) (data_user_lng request) springDocumentId w))))))"

section \<open>The lifecycle hook of the Report content type\<close>

text \<open>
  \<^verbatim>\<open>result.spring\<close> of the event: a count (\<^verbatim>\<open>{ count }\<close>) or a reference
  (\<^verbatim>\<open>{ id, documentId }\<close>), when present.
\<close>

datatype result_relation = RelationCount int | RelationRef int string

record relation_entry =
  entry_documentId :: "string option"
  entry_id :: "int option"

text \<open>\<^verbatim>\<open>params.data.spring\<close>, read as the code casts it.\<close>

record spring_data =
  spring_documentId :: "string option"
  spring_connect :: "relation_entry list option"
  spring_set :: "relation_entry list option"

record ReportAfterCreateEvent =
  result_id :: int
  result_documentId :: string
  result_is_flowing :: bool
  result_reported_at :: string
  result_spring :: "result_relation option"
  params_data_spring :: "spring_data option"

text \<open>\<^verbatim>\<open>xs?.[0]?.documentId\<close>\<close>

definition firstDocumentId :: "relation_entry list option \<Rightarrow> string option" where
  "firstDocumentId xs = (case xs of Some (e # rest) \<Rightarrow> entry_documentId e | _ \<Rightarrow> None)"

text \<open>The first two steps of the resolution of the spring: the result, then the parameters.\<close>

definition springFromEvent :: "ReportAfterCreateEvent \<Rightarrow> string option" where
  "springFromEvent event =
     (let springDocumentId =
            (case result_spring event of Some (RelationRef i d) \<Rightarrow> Some d | _ \<Rightarrow> None)
      in if \<not> truthy springDocumentId then
           (case params_data_spring event of
              None \<Rightarrow> springDocumentId
            | Some springData \<Rightarrow>
                if truthy (spring_documentId springData) then spring_documentId springData
                else if truthy (firstDocumentId (spring_connect springData))
                  then firstDocumentId (spring_connect springData)
                else if truthy (firstDocumentId (spring_set springData))
                  then firstDocumentId (spring_set springData)
                else springDocumentId)
         else springDocumentId)"

text \<open>The last resort: the report is fetched with its spring relation populated.\<close>

definition resolveSpring :: "ReportAfterCreateEvent \<Rightarrow> string option action" where
  "resolveSpring event =
     (let springDocumentId = springFromEvent event
      in if \<not> truthy springDocumentId then
           andThen (findOneReport (result_documentId event))
             (\<lambda>fullReport.
                resolved (case fullReport of
                            Some (Some d) \<Rightarrow> if d \<noteq> [] then Some d else springDocumentId
                          | _ \<Rightarrow> springDocumentId))
         else resolved springDocumentId)"

text \<open>\<^verbatim>\<open>springPublished || springDraft\<close>\<close>

definition referenceDoc :: "SpringDocument option \<Rightarrow> SpringDocument \<Rightarrow> SpringDocument" where
  "referenceDoc springPublished springDraft =
     (case springPublished of Some p \<Rightarrow> p | None \<Rightarrow> springDraft)"

text \<open>
  The condition under which the report is skipped:
  \<^verbatim>\<open>statusUpdatedAtDate && reportedAtDate <= statusUpdatedAtDate\<close>, where
  \<open>statusUpdatedAtDate\<close> is null when the reference has no (or an empty) \<open>status_updated_at\<close>.
\<close>

definition notNewer :: "(string \<Rightarrow> js_date) \<Rightarrow> string \<Rightarrow> SpringDocument \<Rightarrow> bool" where
  "notNewer newDate reported_at reference =
     (let reportedAtDate = newDate reported_at;
          statusUpdatedAtDate =
            (case status_updated_at reference of
               None \<Rightarrow> None
             | Some s \<Rightarrow> if s \<noteq> [] then Some (newDate s) else None)
      in case statusUpdatedAtDate of
           None \<Rightarrow> False
         | Some d \<Rightarrow> date_le reportedAtDate d)"

definition newStatus :: "bool \<Rightarrow> SpringStatus" where
  "newStatus flowing = (if flowing then is_flowing else is_not_flowing)"

text \<open>
  The body of the \<^verbatim>\<open>try\<close> block. \<open>nowIso\<close> is \<^verbatim>\<open>new Date().toISOString()\<close> at the
  time of the write to the published version.
\<close>

definition propagate ::
  "(string \<Rightarrow> js_date) \<Rightarrow> string \<Rightarrow> ReportAfterCreateEvent \<Rightarrow> string \<Rightarrow> unit action" where
  "propagate newDate nowIso event springDocumentId =
     (let reportDocId = result_documentId event;
          reported_at = result_reported_at event
      in
      andThen (strapi_log info (Propagating reportDocId springDocumentId)) (\<lambda>_.
      andThen (findOneSpring springDocumentId Draft) (\<lambda>springDraft.
        case springDraft of
          None \<Rightarrow> strapi_log warn (DraftNotFound reportDocId springDocumentId)
        | Some draftDoc \<Rightarrow>
      andThen (findOneSpring springDocumentId Published) (\<lambda>springPublished.
        let reference = referenceDoc springPublished draftDoc in
        if notNewer newDate reported_at reference then
          strapi_log info (SkippingNotNewer reportDocId reported_at (status_updated_at reference))
        else
        let status = newStatus (result_is_flowing event);
            updateData = \<lparr>data_current_status = status,
                          data_status_updated_at = reported_at,
                          data_updatedAt = None\<rparr>
        in
        case springPublished of
          None \<Rightarrow>
            andThen (documentsUpdate springDocumentId updateData) (\<lambda>_.
              strapi_log info (UpdatedDraftNotPublished reportDocId springDocumentId status))
        | Some p \<Rightarrow>
            andThen (dbQueryUpdate springDocumentId (updateData\<lparr>data_updatedAt := Some nowIso\<rparr>)) (\<lambda>_.
            andThen (strapi_log info (UpdatedPublished reportDocId springDocumentId status)) (\<lambda>_.
            andThen (documentsUpdate springDocumentId updateData) (\<lambda>_.
              strapi_log info (UpdatedDraft reportDocId springDocumentId status))))))))"

text \<open>
  The hook. The resolution of the spring and the guard stand before the \<^verbatim>\<open>try\<close> block;
  only \<open>propagate\<close> is inside it. \<open>Inl\<close> is an exception that leaves the hook.
\<close>

definition afterCreate ::
  "(string \<Rightarrow> js_date) \<Rightarrow> string \<Rightarrow> ReportAfterCreateEvent \<Rightarrow> unit action" where
  "afterCreate newDate nowIso event =
     andThen (resolveSpring event) (\<lambda>springDocumentId.
       case springDocumentId of
         None \<Rightarrow> strapi_log debug (NoSpringLinked (result_documentId event))
       | Some sid \<Rightarrow>
           if sid = [] then strapi_log debug (NoSpringLinked (result_documentId event))
           else (\<lambda>w.
             case propagate newDate nowIso event sid w of
               (Inl e, w') \<Rightarrow>
                 strapi_log error (FailedToPropagate (result_documentId event) springDocumentId e) w'
             | (Inr u, w') \<Rightarrow> (Inr u, w')))"

section \<open>Observing a run\<close>

text \<open>The writes among the calls made between two worlds, and the messages logged between them.\<close>

definition isWrite :: "store_call \<Rightarrow> bool" where
  "isWrite c = (case c of DocumentsUpdate i d \<Rightarrow> True | DbQueryUpdate i d \<Rightarrow> True | _ \<Rightarrow> False)"

definition writesOf :: "world \<Rightarrow> world \<Rightarrow> store_call list" where
  "writesOf w w' = filter isWrite (drop (length (calls w)) (calls w'))"

definition messagesOf :: "world \<Rightarrow> world \<Rightarrow> log_message list" where
  "messagesOf w w' = map snd (drop (length (logged w)) (logged w'))"

text \<open>A run applied the report when its last message says that the draft was updated.\<close>

definition applied :: "world \<Rightarrow> world \<Rightarrow> bool" where
  "applied w w' =
     (case rev (messagesOf w w') of
        UpdatedDraft r s st # ms \<Rightarrow> True
      | UpdatedDraftNotPublished r s st # ms \<Rightarrow> True
      | _ \<Rightarrow> False)"

text \<open>The \<^verbatim>\<open>data\<close> of the writes of a report: to the draft without, to the published version with \<open>updatedAt\<close>.\<close>

definition statusData :: "ReportAfterCreateEvent \<Rightarrow> string option \<Rightarrow> update_data" where
  "statusData event stamp =
     \<lparr>data_current_status = newStatus (result_is_flowing event),
      data_status_updated_at = result_reported_at event,
      data_updatedAt = stamp\<rparr>"

section \<open>Scenarios\<close>

text \<open>
  Concrete inputs on which the policy and the lifecycle are run: a store that holds nothing and
  never fails, a spring, the shared secret, a request signed for that spring, the event of a
  report created for it (the relation arrives as a connect operation in the parameters), the
  event of a report whose spring is not in the event, and a store that holds the spring.
\<close>

definition quietStore :: world where
  "quietStore =
     \<lparr>spring_draft = (\<lambda>i. None), spring_published = (\<lambda>i. None), report_spring = (\<lambda>i. None),
      store_fails = (\<lambda>c. False), logged = [], calls = []\<rparr>"

definition exampleSpring :: SpringDocument where
  "exampleSpring =
     \<lparr>documentId = ''abc123xyz456'', lat = Finite 8, lng = Finite 0, current_status = unknown,
      status_updated_at = None, updatedAt = ''2024-01-01T00:00:00Z'',
      attributes = [(''title'', ''Studanka'')]\<rparr>"

definition exampleSecret :: string where
  "exampleSecret = ''s3cr3t-32-chars-minimum-xxxxxxx''"

definition signedRequest :: "hmac \<Rightarrow> json option \<Rightarrow> json option \<Rightarrow> ReportRequest" where
  "signedRequest hm userLat userLng =
     \<lparr>x_app_signature = Some (generateExpectedSignature hm ''1736622000'' ''abc123xyz456'' exampleSecret),
      x_timestamp = Some ''1736622000'',
      data_spring = Some ''abc123xyz456'',
      data_user_lat = userLat,
      data_user_lng = userLng\<rparr>"

definition reportEvent :: "string \<Rightarrow> bool \<Rightarrow> ReportAfterCreateEvent" where
  "reportEvent reported_at flowing =
     \<lparr>result_id = 1, result_documentId = ''report1'', result_is_flowing = flowing,
      result_reported_at = reported_at, result_spring = None,
      params_data_spring =
        Some \<lparr>spring_documentId = None,
              spring_connect = Some [\<lparr>entry_documentId = Some ''abc123xyz456'', entry_id = None\<rparr>],
              spring_set = None\<rparr>\<rparr>"

definition unlinkedEvent :: ReportAfterCreateEvent where
  "unlinkedEvent = (reportEvent ''2024-01-15T10:00:00Z'' True)\<lparr>params_data_spring := None\<rparr>"

definition storeWith :: "SpringDocument option \<Rightarrow> SpringDocument option \<Rightarrow> world" where
  "storeWith draftDoc publishedDoc =
     quietStore\<lparr>spring_draft := (\<lambda>i. if i = ''abc123xyz456'' then draftDoc else None),
                spring_published := (\<lambda>i. if i = ''abc123xyz456'' then publishedDoc else None)\<rparr>"

text \<open>
  A spring whose draft carries an edit that was not published, and a report that found it
  flowing.
\<close>

definition draftEdit :: SpringDocument where
  "draftEdit = exampleSpring\<lparr>attributes := [(''title'', ''Studanka u lesa'')]\<rparr>"

definition publishedStore :: world where
  "publishedStore = storeWith (Some draftEdit) (Some exampleSpring)"

definition flowReport :: ReportAfterCreateEvent where
  "flowReport = reportEvent ''2024-01-15T10:00:00Z'' True"


section \<open>Facts about hex, digests and signatures\<close>

lemma length_digestBytes: "length (digestBytes d) = 32"
  by (simp add: digestBytes_def)




lemma length_hexEncode: "length (hexEncode bs) = 2 * length bs"
  by (induction bs) (simp_all add: hexEncode_def)


lemma signature_nonempty: "generateExpectedSignature hm t s k \<noteq> []"
proof -
  have "length (generateExpectedSignature hm t s k) = 64"
    by (simp add: generateExpectedSignature_def length_hexEncode length_digestBytes)
  then show ?thesis by auto
qed

lemma signatureMismatch_eq:
  "signatureMismatch candidate expected = Inr (bufferFromHex candidate \<noteq> bufferFromHex expected)"
  by (auto simp: signatureMismatch_def timingSafeEqual_def Let_def)

lemma digest_collision: "\<exists>t t'. t' \<noteq> t \<and> (f :: string \<Rightarrow> 256 word) t' = f t"
proof -
  have "\<not> inj f"
  proof
    assume "inj f"
    moreover have "finite (range f)" by (rule finite)
    ultimately have "finite (UNIV :: string set)"
      by (rule finite_imageD [rotated])
    then show False using infinite_UNIV_listI by blast
  qed
  then show ?thesis by (auto simp: inj_on_def)
qed

section \<open>The replay window\<close>

text \<open>
  Claim C4. With \<open>now = floor(Date.now() / 1000)\<close>, the timestamp check accepts a timestamp
  \<open>t\<close> exactly when \<open>0 \<le> now - t \<le> 300\<close>. The ages 0 and 300 are accepted; the ages -1
  (a timestamp one second in the future) and 301 are rejected.
\<close>

theorem isTimestampValid_window:
  "(isTimestampValid dateNow t \<longleftrightarrow> 0 \<le> dateNow div 1000 - t \<and> dateNow div 1000 - t \<le> 300)
   \<and> isTimestampValid dateNow (dateNow div 1000 - 0)
   \<and> isTimestampValid dateNow (dateNow div 1000 - 300)
   \<and> \<not> isTimestampValid dateNow (dateNow div 1000 - (- 1))
   \<and> \<not> isTimestampValid dateNow (dateNow div 1000 - 301)"
  by (simp add: isTimestampValid_def TIMESTAMP_MAX_AGE_SECONDS_def Let_def)

theorem isTimestampValid_window_witness:
  "isTimestampValid 1736622300999 1736622000 \<and> \<not> isTimestampValid 1736622301000 1736622000
   \<and> isTimestampValid 1736622000000 1736622000 \<and> \<not> isTimestampValid 1736621999999 1736622000"
  using isTimestampValid_window [of 1736622300999 1736622000]
    isTimestampValid_window [of 1736622301000 1736622000]
    isTimestampValid_window [of 1736622000000 1736622000]
    isTimestampValid_window [of 1736621999999 1736622000]
  by simp

section \<open>Signing and verifying\<close>




section \<open>The format of the timestamp header\<close>

lemma digit_not_space: "isDecimalDigit d \<Longrightarrow> \<not> isStrWhiteSpaceChar d"
  by (auto simp: isDecimalDigit_def isStrWhiteSpaceChar_def)

lemma digit_not_sign: "isDecimalDigit d \<Longrightarrow> d \<noteq> CHR ''+'' \<and> d \<noteq> CHR ''-''"
  by (auto simp: isDecimalDigit_def)

lemma sign_not_space: "\<not> isStrWhiteSpaceChar CHR ''+'' \<and> \<not> isStrWhiteSpaceChar CHR ''-''"
  by (simp add: isStrWhiteSpaceChar_def)

lemma dropWhile_spaces:
  "list_all isStrWhiteSpaceChar ws \<Longrightarrow> \<not> isStrWhiteSpaceChar c \<Longrightarrow>
   dropWhile isStrWhiteSpaceChar (ws @ c # rest) = c # rest"
  by (induction ws) simp_all

lemma parseInt10_digits:
  assumes "list_all isStrWhiteSpaceChar ws" and "sg \<in> {[], ''+'', ''-''}" and "isDecimalDigit d"
  shows "parseInt10 (ws @ sg @ d # rest) =
    Some ((if sg = ''-'' then - 1 else 1) * digitsValue (d # takeWhile isDecimalDigit rest))"
proof -
  consider "sg = []" | "sg = ''+''" | "sg = ''-''" using assms(2) by auto
  then show ?thesis
  proof cases
    case 1
    with assms show ?thesis
      using digit_not_sign [of d]
      by (simp add: parseInt10_def dropWhile_spaces digit_not_space Let_def)
  next
    case 2
    with assms show ?thesis
      using sign_not_space
      by (simp add: parseInt10_def dropWhile_spaces Let_def)
  next
    case 3
    with assms show ?thesis
      using sign_not_space
      by (simp add: parseInt10_def dropWhile_spaces Let_def)
  qed
qed

lemma parseInt10_Some_shape:
  assumes "parseInt10 ts = Some v"
  shows "\<exists>ws sg d rest. ts = ws @ sg @ d # rest \<and> list_all isStrWhiteSpaceChar ws \<and>
    sg \<in> {[], ''+'', ''-''} \<and> isDecimalDigit d"
proof -
  define ws where "ws = takeWhile isStrWhiteSpaceChar ts"
  define S where "S = dropWhile isStrWhiteSpaceChar ts"
  define sg where "sg = (if S \<noteq> [] \<and> (hd S = CHR ''+'' \<or> hd S = CHR ''-'') then [hd S] else [])"
  define S' where "S' = (if S \<noteq> [] \<and> (hd S = CHR ''+'' \<or> hd S = CHR ''-'') then tl S else S)"
  have ts: "ts = ws @ S" by (simp add: ws_def S_def)
  have S: "S = sg @ S'" by (auto simp: sg_def S'_def)
  have ws: "list_all isStrWhiteSpaceChar ws"
    by (simp add: ws_def list_all_iff) (meson set_takeWhileD)
  have sg: "sg \<in> {[], ''+'', ''-''}" by (auto simp: sg_def)
  from assms have "takeWhile isDecimalDigit S' \<noteq> []"
    by (auto simp: parseInt10_def Let_def S_def S'_def split: if_splits)
  then obtain d rest where S': "S' = d # rest" and d: "isDecimalDigit d"
    by (cases S') (auto split: if_splits)
  from ts S S' ws sg d show ?thesis by blast
qed

lemma parseInt10_None_iff:
  "parseInt10 ts = None \<longleftrightarrow>
   \<not> (\<exists>ws sg d rest. ts = ws @ sg @ d # rest \<and> list_all isStrWhiteSpaceChar ws \<and>
        sg \<in> {[], ''+'', ''-''} \<and> isDecimalDigit d)"
proof
  assume "parseInt10 ts = None"
  then show "\<not> (\<exists>ws sg d rest. ts = ws @ sg @ d # rest \<and> list_all isStrWhiteSpaceChar ws \<and>
        sg \<in> {[], ''+'', ''-''} \<and> isDecimalDigit d)"
    using parseInt10_digits by fastforce
next
  assume "\<not> (\<exists>ws sg d rest. ts = ws @ sg @ d # rest \<and> list_all isStrWhiteSpaceChar ws \<and>
        sg \<in> {[], ''+'', ''-''} \<and> isDecimalDigit d)"
  then show "parseInt10 ts = None"
    using parseInt10_Some_shape [of ts] by (cases "parseInt10 ts") auto
qed

text \<open>
  The claim that every header that is not a decimal integer is refused by the format check does
  not hold: \<^verbatim>\<open>parseInt\<close> reads the digits a header starts with and ignores the rest, so
  the header \<^verbatim>\<open>1736622000abc\<close> is read as 1736622000, and the request is accepted when
  its signature is the one of that header.
\<close>

theorem timestamp_with_suffix_counterexample:
  "\<forall>rt (hm :: hmac) w.
     parseInt10 ''1736622000abc'' = Some 1736622000 \<and>
     isAuthenticReport rt hm (Some ''s3cr3t-32-chars-minimum-xxxxxxx'') 1736622000000
       \<lparr>x_app_signature = Some (generateExpectedSignature hm ''1736622000abc'' ''abc123xyz456''
                                  ''s3cr3t-32-chars-minimum-xxxxxxx''),
        x_timestamp = Some ''1736622000abc'',
        data_spring = Some ''abc123xyz456'',
        data_user_lat = None,
        data_user_lng = None\<rparr> w = Inr Accepted"
proof (intro allI conjI)
  show p: "parseInt10 ''1736622000abc'' = Some 1736622000"
    by (simp add: parseInt10_def isStrWhiteSpaceChar_def isDecimalDigit_def digitsValue_def)
  fix rt and hm :: hmac and w
  have v: "isTimestampValid 1736622000000 1736622000"
    by (simp add: isTimestampValid_def TIMESTAMP_MAX_AGE_SECONDS_def)
  show "isAuthenticReport rt hm (Some ''s3cr3t-32-chars-minimum-xxxxxxx'') 1736622000000
       \<lparr>x_app_signature = Some (generateExpectedSignature hm ''1736622000abc'' ''abc123xyz456''
                                  ''s3cr3t-32-chars-minimum-xxxxxxx''),
        x_timestamp = Some ''1736622000abc'',
        data_spring = Some ''abc123xyz456'',
        data_user_lat = None,
        data_user_lng = None\<rparr> w = Inr Accepted"
    using p v
    by (simp add: isAuthenticReport_def signature_nonempty signatureMismatch_eq geoFence_def)
qed

text \<open>
  Claim C7, as amended. A request whose timestamp header does not start, after optional white
  space and one optional sign, with a decimal digit is refused: with the reason of the format
  check when both headers are present, with the reason of a missing header otherwise.
\<close>

theorem timestamp_without_digits_rejected:
  assumes "x_timestamp request = Some ts"
    and "\<not> (\<exists>ws sg d rest. ts = ws @ sg @ d # rest \<and> list_all isStrWhiteSpaceChar ws \<and>
          sg \<in> {[], ''+'', ''-''} \<and> isDecimalDigit d)"
  shows "isAuthenticReport rt hm hmacSecret dateNow request w =
    Inr (Rejected (if \<not> truthy (x_app_signature request) then MissingSignatureHeader
                   else if ts = [] then MissingTimestampHeader
                   else InvalidTimestampFormat))
    \<and> \<not> returned (Rejected InvalidTimestampFormat)"
proof -
  from assms(2) have "parseInt10 ts = None" by (simp add: parseInt10_None_iff)
  with assms(1) show ?thesis
    by (simp add: isAuthenticReport_def truthy_def returned_def split: option.splits)
qed

theorem timestamp_without_digits_rejected_witness:
  "\<forall>rt (hm :: hmac) w.
     isAuthenticReport rt hm (Some ''s3cr3t-32-chars-minimum-xxxxxxx'') 1736622000000
       \<lparr>x_app_signature = Some ''00ff'',
        x_timestamp = Some ''abc1736622000'',
        data_spring = Some ''abc123xyz456'',
        data_user_lat = None,
        data_user_lng = None\<rparr> w = Inr (Rejected InvalidTimestampFormat)"
proof (intro allI)
  fix rt and hm :: hmac and w
  have "parseInt10 ''abc1736622000'' = None"
    by (simp add: parseInt10_def isStrWhiteSpaceChar_def isDecimalDigit_def)
  then have shape: "\<not> (\<exists>ws sg d rest. ''abc1736622000'' = ws @ sg @ d # rest \<and>
        list_all isStrWhiteSpaceChar ws \<and> sg \<in> {[], ''+'', ''-''} \<and> isDecimalDigit d)"
    by (simp add: parseInt10_None_iff)
  show "isAuthenticReport rt hm (Some ''s3cr3t-32-chars-minimum-xxxxxxx'') 1736622000000
       \<lparr>x_app_signature = Some ''00ff'',
        x_timestamp = Some ''abc1736622000'',
        data_spring = Some ''abc123xyz456'',
        data_user_lat = None,
        data_user_lng = None\<rparr> w = Inr (Rejected InvalidTimestampFormat)"
    using timestamp_without_digits_rejected [OF _ shape, of
        "\<lparr>x_app_signature = Some ''00ff'', x_timestamp = Some ''abc1736622000'',
          data_spring = Some ''abc123xyz456'', data_user_lat = None, data_user_lng = None\<rparr>"
        rt hm "Some ''s3cr3t-32-chars-minimum-xxxxxxx''" 1736622000000 w]
    by (simp add: truthy_def)
qed

section \<open>The geo-fence\<close>

lemma findOneSpring_result:
  "\<not> store_fails w (FindOneSpring i v) \<Longrightarrow>
   fst (findOneSpring i v w) = Inr (case v of Draft \<Rightarrow> spring_draft w i | Published \<Rightarrow> spring_published w i)"
  by (cases v) (simp_all add: findOneSpring_def storeCall_def Let_def)

lemma geoFence_without_coordinates:
  "userLat = None \<or> userLng = None \<Longrightarrow> geoFence rt userLat userLng i w = Inr Accepted"
  by (auto simp: geoFence_def split: option.splits)

lemma geoFence_with_coordinates:
  "\<not> store_fails w (FindOneSpring i Published) \<Longrightarrow>
   geoFence rt (Some uLat) (Some uLng) i w =
     (case spring_published w i of
        None \<Rightarrow> Inr (Rejected SpringNotFound)
      | Some spring \<Rightarrow>
          if num_gt (haversineDistance rt (toNumber rt uLat) (toNumber rt uLng)
                       (lat spring) (lng spring)) (Finite 500)
          then Inr (Rejected TooFarFromSpring) else Inr Accepted)"
  by (simp add: geoFence_def findOneSpring_result MAX_DISTANCE_METERS_def Let_def
      split: option.splits)

lemma geoFence_reads_published:
  "geoFence rt userLat userLng i (w\<lparr>spring_draft := drafts\<rparr>) = geoFence rt userLat userLng i w"
proof -
  have "fst (findOneSpring i Published (w\<lparr>spring_draft := drafts\<rparr>))
      = fst (findOneSpring i Published w)"
    by (simp add: findOneSpring_def storeCall_def Let_def)
  then show ?thesis by (simp only: geoFence_def)
qed

lemma policy_reads_published:
  "isAuthenticReport rt hm hmacSecret dateNow request (w\<lparr>spring_draft := drafts\<rparr>)
     = isAuthenticReport rt hm hmacSecret dateNow request w"
  by (simp only: isAuthenticReport_def geoFence_reads_published)

text \<open>A request passes the checks before the geo-fence when it is accepted without coordinates.\<close>

lemma policy_is_geoFence:
  assumes "isAuthenticReport rt hm hmacSecret dateNow
             (request\<lparr>data_user_lat := None, data_user_lng := None\<rparr>) w = Inr Accepted"
    and "data_spring request = Some i"
  shows "isAuthenticReport rt hm hmacSecret dateNow request w =
         geoFence rt (data_user_lat request) (data_user_lng request) i w"
  using assms
  by (auto simp: isAuthenticReport_def signatureMismatch_eq
      split: option.splits if_splits bool.splits)

lemma signedRequest_passes:
  "isAuthenticReport rt hm (Some exampleSecret) 1736622000000 (signedRequest hm None None) w
     = Inr Accepted"
proof -
  have p: "parseInt10 ''1736622000'' = Some 1736622000"
    by (simp add: parseInt10_def isStrWhiteSpaceChar_def isDecimalDigit_def digitsValue_def)
  have v: "isTimestampValid 1736622000000 1736622000"
    by (simp add: isTimestampValid_def TIMESTAMP_MAX_AGE_SECONDS_def)
  show ?thesis
    using p v
    by (simp add: isAuthenticReport_def signedRequest_def signature_nonempty signatureMismatch_eq
        geoFence_def exampleSecret_def)
qed

text \<open>
  What the fence decides, for a request that passes the checks before it and a lookup that
  returns: the comparison of the computed distance with 500.
\<close>

lemma geo_fence_decides:
  assumes "isAuthenticReport rt hm hmacSecret dateNow
             (request\<lparr>data_user_lat := None, data_user_lng := None\<rparr>) w = Inr Accepted"
    and "data_spring request = Some i"
    and "\<not> store_fails w (FindOneSpring i Published)"
  shows "isAuthenticReport rt hm hmacSecret dateNow request w =
     (case (data_user_lat request, data_user_lng request) of
        (Some userLat, Some userLng) \<Rightarrow>
          (case spring_published w i of
             None \<Rightarrow> Inr (Rejected SpringNotFound)
           | Some spring \<Rightarrow>
               if num_gt (haversineDistance rt (toNumber rt userLat) (toNumber rt userLng)
                            (lat spring) (lng spring)) (Finite 500)
               then Inr (Rejected TooFarFromSpring) else Inr Accepted)
      | _ \<Rightarrow> Inr Accepted)"
proof (cases "data_user_lat request")
  case None
  then show ?thesis
    using policy_is_geoFence [OF assms(1,2)] by (simp add: geoFence_without_coordinates)
next
  case lat: (Some userLat)
  show ?thesis
  proof (cases "data_user_lng request")
    case None
    then show ?thesis
      using lat policy_is_geoFence [OF assms(1,2)] by (simp add: geoFence_without_coordinates)
  next
    case (Some userLng)
    then show ?thesis
      using lat policy_is_geoFence [OF assms(1,2)] geoFence_with_coordinates [OF assms(3)]
      by simp
  qed
qed

subsection \<open>Distances that are not numbers\<close>

text \<open>\<^verbatim>\<open>Math.PI / 180\<close> is a finite number, whatever the rounding.\<close>

lemma radians_per_degree:
  "num_div rt Math_PI (Finite 180) = Finite (rt_round rt (884279719003555 / 2 ^ 48 / 180))"
proof -
  have "(884279719003555 / 2 ^ 48 / 180 :: real) < 1" by simp
  moreover have "(1 :: real) < overflowThreshold"
    by (simp add: overflowThreshold_def)
  moreover have "- overflowThreshold < (0 :: real)"
    by (simp add: overflowThreshold_def)
  moreover have "(0 :: real) < 884279719003555 / 2 ^ 48 / 180" by simp
  ultimately show ?thesis
    by (simp add: Math_PI_def toDouble_def)
qed

text \<open>The sine of half the radians of an infinite difference of degrees is NaN.\<close>

lemma sin_of_infinite_degrees:
  assumes "x = Infinity \<or> x = MinusInfinity"
  shows "Math_sin rt (num_div rt (toRadians rt x) (Finite 2)) = NaN"
proof -
  define c where "c = rt_round rt (884279719003555 / 2 ^ 48 / 180)"
  have "toRadians rt x = num_mul rt x (Finite c)"
    by (simp add: toRadians_def radians_per_degree c_def)
  moreover from assms have "num_mul rt x (Finite c) \<in> {NaN, Infinity, MinusInfinity}"
    by (cases "c = 0"; cases "isNegative x = isNegative (Finite c)") auto
  ultimately have "toRadians rt x \<in> {NaN, Infinity, MinusInfinity}"
    by simp
  then have "num_div rt (toRadians rt x) (Finite 2) \<in> {NaN, Infinity, MinusInfinity}"
    by auto
  then show ?thesis
    by (auto simp: Math_sin_def)
qed

text \<open>A user latitude that is an infinity, as \<^verbatim>\<open>JSON.parse\<close> gives for \<^verbatim>\<open>1e999\<close>: the distance is NaN.\<close>

lemma haversine_infinite_latitude:
  "haversineDistance rt Infinity lng1 (Finite lat2) lng2 = NaN"
proof -
  have "num_sub rt (Finite lat2) Infinity = MinusInfinity"
    by (simp add: num_sub_def num_neg_def)
  then have "Math_sin rt (num_div rt (toRadians rt (num_sub rt (Finite lat2) Infinity)) (Finite 2)) = NaN"
    by (simp add: sin_of_infinite_degrees)
  then have "haversineA rt Infinity lng1 (Finite lat2) lng2 = NaN"
    by (simp add: haversineA_def Let_def)
  then show ?thesis
    by (simp add: haversineDistance_def Math_sqrt_def Math_atan2_def EARTH_RADIUS_METERS_def)
qed

text \<open>
  When the rounded sum \<^verbatim>\<open>a\<close> exceeds 1, as it does in doubles for some points that are almost
  antipodes, \<^verbatim>\<open>1 - a\<close> is negative, its square root is NaN, and so is the distance.
\<close>

lemma haversine_a_above_one:
  assumes "haversineA rt lat1 lng1 lat2 lng2 = Finite a" and "1 < a"
    and "rt_round rt (1 - a) < 0"
  shows "haversineDistance rt lat1 lng1 lat2 lng2 = NaN"
proof -
  have "num_sub rt (Finite 1) (Finite a) = MinusInfinity \<or>
      num_sub rt (Finite 1) (Finite a) = Finite (rt_round rt (1 - a))"
  proof -
    have "(0 :: real) < overflowThreshold" by (simp add: overflowThreshold_def)
    with assms(2) have "\<not> overflowThreshold \<le> 1 - a" by simp
    then show ?thesis by (simp add: num_sub_def num_neg_def toDouble_def)
  qed
  with assms(3) have "Math_sqrt rt (num_sub rt (Finite 1) (Finite a)) = NaN"
    by (auto simp: Math_sqrt_def)
  with assms(1) show ?thesis
    by (simp add: haversineDistance_def Math_atan2_def EARTH_RADIUS_METERS_def)
qed

text \<open>A distance that is NaN is not greater than 500: the fence lets the request through.\<close>

lemma geoFence_accepts_NaN:
  assumes "\<not> store_fails w (FindOneSpring i Published)" and "spring_published w i = Some spring"
    and "haversineDistance rt (toNumber rt uLat) (toNumber rt uLng) (lat spring) (lng spring) = NaN"
  shows "geoFence rt (Some uLat) (Some uLng) i w = Inr Accepted"
  using assms by (simp add: geoFence_with_coordinates)

text \<open>
  Claim C6 says that a request with both coordinates is refused when its distance to the
  spring exceeds 500 metres. The fence compares with \<^verbatim>\<open>distance > 500\<close>, which is false for
  a distance that is NaN, and the formula gives NaN where it should give a large distance.
  Here the request carries \<^verbatim>\<open>user_lat: 1e999\<close>, which is read as an infinity: whatever the
  rounding and the secret's digest, it is accepted for a spring at latitude 8.
\<close>

theorem infinite_latitude_accepted:
  "\<forall>rt (hm :: hmac).
     isAuthenticReport rt hm (Some exampleSecret) 1736622000000
       (signedRequest hm (Some (JsonNumber Infinity)) (Some (JsonNumber (Finite 0))))
       (storeWith (Some exampleSpring) (Some exampleSpring)) = Inr Accepted"
proof (intro allI)
  fix rt and hm :: hmac
  let ?w = "storeWith (Some exampleSpring) (Some exampleSpring)"
  let ?r = "signedRequest hm (Some (JsonNumber Infinity)) (Some (JsonNumber (Finite 0)))"
  have pass: "isAuthenticReport rt hm (Some exampleSecret) 1736622000000
      (?r\<lparr>data_user_lat := None, data_user_lng := None\<rparr>) ?w = Inr Accepted"
    using signedRequest_passes [of rt hm ?w] by (simp add: signedRequest_def)
  have sid: "data_spring ?r = Some ''abc123xyz456''"
    and la: "data_user_lat ?r = Some (JsonNumber Infinity)"
    and lo: "data_user_lng ?r = Some (JsonNumber (Finite 0))"
    by (simp_all add: signedRequest_def)
  have ok: "\<not> store_fails ?w (FindOneSpring ''abc123xyz456'' Published)"
    and sp: "spring_published ?w ''abc123xyz456'' = Some exampleSpring"
    by (simp_all add: storeWith_def quietStore_def)
  have nan: "haversineDistance rt (toNumber rt (JsonNumber Infinity))
      (toNumber rt (JsonNumber (Finite 0))) (lat exampleSpring) (lng exampleSpring) = NaN"
    by (simp add: toNumber_def exampleSpring_def haversine_infinite_latitude)
  show "isAuthenticReport rt hm (Some exampleSecret) 1736622000000 ?r ?w = Inr Accepted"
    using policy_is_geoFence [OF pass sid] geoFence_accepts_NaN [OF ok sp nan]
    by (simp add: la lo)
qed

text \<open>
  Claim C10. The lookup of the geo-fence reads the published version only. A request with both
  coordinates for a spring without a published version is refused as not found although it
  passes the signature and timestamp checks and would be accepted without coordinates, and
  whatever the drafts of the store are.
\<close>

theorem draft_only_spring_rejected:
  assumes "isAuthenticReport rt hm hmacSecret dateNow
             (request\<lparr>data_user_lat := None, data_user_lng := None\<rparr>) w = Inr Accepted"
    and "data_spring request = Some i"
    and "data_user_lat request = Some userLat" and "data_user_lng request = Some userLng"
    and "spring_published w i = None"
    and "\<not> store_fails w (FindOneSpring i Published)"
  shows "isAuthenticReport rt hm hmacSecret dateNow request w = Inr (Rejected SpringNotFound)
    \<and> isAuthenticReport rt hm hmacSecret dateNow request (w\<lparr>spring_draft := drafts\<rparr>)
        = Inr (Rejected SpringNotFound)"
proof -
  have "isAuthenticReport rt hm hmacSecret dateNow request (w\<lparr>spring_draft := drafts\<rparr>)
      = isAuthenticReport rt hm hmacSecret dateNow request w"
    by (rule policy_reads_published)
  moreover have "isAuthenticReport rt hm hmacSecret dateNow request w = Inr (Rejected SpringNotFound)"
    using policy_is_geoFence [OF assms(1,2)] geoFence_with_coordinates [OF assms(6)] assms(3,4,5)
    by simp
  ultimately show ?thesis by simp
qed

theorem draft_only_spring_rejected_witness:
  "\<forall>rt (hm :: hmac).
     isAuthenticReport rt hm (Some exampleSecret) 1736622000000 (signedRequest hm None None)
       (quietStore\<lparr>spring_draft := (\<lambda>i. if i = ''abc123xyz456'' then Some exampleSpring else None)\<rparr>)
       = Inr Accepted
   \<and> isAuthenticReport rt hm (Some exampleSecret) 1736622000000
       (signedRequest hm (Some (JsonNumber (Finite 8))) (Some (JsonNumber (Finite 0))))
       (quietStore\<lparr>spring_draft := (\<lambda>i. if i = ''abc123xyz456'' then Some exampleSpring else None)\<rparr>)
       = Inr (Rejected SpringNotFound)"
proof (intro allI)
  fix rt and hm :: hmac
  let ?drafts = "\<lambda>i. if i = ''abc123xyz456'' then Some exampleSpring else None"
  let ?r = "signedRequest hm (Some (JsonNumber (Finite 8))) (Some (JsonNumber (Finite 0)))"
  have pass: "isAuthenticReport rt hm (Some exampleSecret) 1736622000000
      (signedRequest hm a b\<lparr>data_user_lat := None, data_user_lng := None\<rparr>) v = Inr Accepted" for a b v
    using signedRequest_passes [of rt hm v] by (simp add: signedRequest_def)
  have sid: "data_spring (signedRequest hm a b) = Some ''abc123xyz456''" for a b
    by (simp add: signedRequest_def)
  have la: "data_user_lat ?r = Some (JsonNumber (Finite 8))"
    and lo: "data_user_lng ?r = Some (JsonNumber (Finite 0))"
    by (simp_all add: signedRequest_def)
  have none: "spring_published quietStore ''abc123xyz456'' = None"
    and ok: "\<not> store_fails quietStore (FindOneSpring ''abc123xyz456'' Published)"
    by (simp_all add: quietStore_def)
  show "isAuthenticReport rt hm (Some exampleSecret) 1736622000000 (signedRequest hm None None)
       (quietStore\<lparr>spring_draft := ?drafts\<rparr>) = Inr Accepted
   \<and> isAuthenticReport rt hm (Some exampleSecret) 1736622000000 ?r
       (quietStore\<lparr>spring_draft := ?drafts\<rparr>) = Inr (Rejected SpringNotFound)"
    using draft_only_spring_rejected [OF pass sid la lo none ok, of ?drafts]
      signedRequest_passes [of rt hm "quietStore\<lparr>spring_draft := ?drafts\<rparr>"]
    by simp
qed

section \<open>Runs of the lifecycle hook\<close>

lemmas store_defs = andThen_def resolved_def strapi_log_def storeCall_def findOneSpring_def
  findOneReport_def documentsUpdate_def dbQueryUpdate_def

lemma resolveSpring_world:
  "snd (resolveSpring event w) =
     w\<lparr>calls := calls w @ (if truthy (springFromEvent event) then []
                             else [FindOneReport (result_documentId event)])\<rparr>"
  by (simp add: resolveSpring_def store_defs Let_def)

lemma resolveSpring_result:
  "fst (resolveSpring event w) =
     (if truthy (springFromEvent event) then Inr (springFromEvent event)
      else if store_fails w (FindOneReport (result_documentId event)) then Inl StoreError
      else Inr (case report_spring w (result_documentId event) of
                  Some (Some d) \<Rightarrow> if d \<noteq> [] then Some d else springFromEvent event
                | _ \<Rightarrow> springFromEvent event))"
  by (simp add: resolveSpring_def store_defs Let_def)

text \<open>The run of the try block, case by case.\<close>

lemma propagate_draft_lookup_fails:
  assumes "store_fails w (FindOneSpring i Draft)"
  shows "propagate newDate nowIso event i w =
    (Inl StoreError,
     w\<lparr>logged := logged w @ [(info, Propagating (result_documentId event) i)],
       calls := calls w @ [FindOneSpring i Draft]\<rparr>)"
  using assms by (simp add: propagate_def store_defs Let_def)

lemma propagate_no_draft:
  assumes "\<not> store_fails w (FindOneSpring i Draft)" and "spring_draft w i = None"
  shows "propagate newDate nowIso event i w =
    (Inr (),
     w\<lparr>logged := logged w @ [(info, Propagating (result_documentId event) i),
                              (warn, DraftNotFound (result_documentId event) i)],
       calls := calls w @ [FindOneSpring i Draft]\<rparr>)"
  using assms by (simp add: propagate_def store_defs Let_def)

lemma propagate_published_lookup_fails:
  assumes "\<not> store_fails w (FindOneSpring i Draft)" and "spring_draft w i = Some d"
    and "store_fails w (FindOneSpring i Published)"
  shows "propagate newDate nowIso event i w =
    (Inl StoreError,
     w\<lparr>logged := logged w @ [(info, Propagating (result_documentId event) i)],
       calls := calls w @ [FindOneSpring i Draft, FindOneSpring i Published]\<rparr>)"
  using assms by (simp add: propagate_def store_defs Let_def)

lemma propagate_skips:
  assumes "\<not> store_fails w (FindOneSpring i Draft)" and "spring_draft w i = Some d"
    and "\<not> store_fails w (FindOneSpring i Published)"
    and "notNewer newDate (result_reported_at event) (referenceDoc (spring_published w i) d)"
  shows "propagate newDate nowIso event i w =
    (Inr (),
     w\<lparr>logged := logged w @ [(info, Propagating (result_documentId event) i),
          (info, SkippingNotNewer (result_documentId event) (result_reported_at event)
                   (status_updated_at (referenceDoc (spring_published w i) d)))],
       calls := calls w @ [FindOneSpring i Draft, FindOneSpring i Published]\<rparr>)"
  using assms by (simp add: propagate_def store_defs Let_def)

lemma propagate_draft_only:
  assumes "\<not> store_fails w (FindOneSpring i Draft)" and "spring_draft w i = Some d"
    and "\<not> store_fails w (FindOneSpring i Published)" and "spring_published w i = None"
    and "\<not> notNewer newDate (result_reported_at event) d"
  shows "propagate newDate nowIso event i w =
    (if store_fails w (DocumentsUpdate i (statusData event None)) then
       (Inl StoreError,
        w\<lparr>logged := logged w @ [(info, Propagating (result_documentId event) i)],
          calls := calls w @ [FindOneSpring i Draft, FindOneSpring i Published,
                              DocumentsUpdate i (statusData event None)]\<rparr>)
     else
       (Inr (),
        w\<lparr>spring_draft := (spring_draft w)(i := Some (applyData (statusData event None) d)),
          logged := logged w @ [(info, Propagating (result_documentId event) i),
            (info, UpdatedDraftNotPublished (result_documentId event) i
                     (newStatus (result_is_flowing event)))],
          calls := calls w @ [FindOneSpring i Draft, FindOneSpring i Published,
                              DocumentsUpdate i (statusData event None)]\<rparr>))"
  using assms
  by (simp add: propagate_def store_defs Let_def referenceDoc_def statusData_def)

lemma propagate_published:
  assumes "\<not> store_fails w (FindOneSpring i Draft)" and "spring_draft w i = Some d"
    and "\<not> store_fails w (FindOneSpring i Published)" and "spring_published w i = Some p"
    and "\<not> notNewer newDate (result_reported_at event) p"
  shows "propagate newDate nowIso event i w =
    (if store_fails w (DbQueryUpdate i (statusData event (Some nowIso))) then
       (Inl StoreError,
        w\<lparr>logged := logged w @ [(info, Propagating (result_documentId event) i)],
          calls := calls w @ [FindOneSpring i Draft, FindOneSpring i Published,
                              DbQueryUpdate i (statusData event (Some nowIso))]\<rparr>)
     else if store_fails w (DocumentsUpdate i (statusData event None)) then
       (Inl StoreError,
        w\<lparr>spring_published :=
            (spring_published w)(i := Some (applyData (statusData event (Some nowIso)) p)),
          logged := logged w @ [(info, Propagating (result_documentId event) i),
            (info, UpdatedPublished (result_documentId event) i
                     (newStatus (result_is_flowing event)))],
          calls := calls w @ [FindOneSpring i Draft, FindOneSpring i Published,
                              DbQueryUpdate i (statusData event (Some nowIso)),
                              DocumentsUpdate i (statusData event None)]\<rparr>)
     else
       (Inr (),
        w\<lparr>spring_draft := (spring_draft w)(i := Some (applyData (statusData event None) d)),
          spring_published :=
            (spring_published w)(i := Some (applyData (statusData event (Some nowIso)) p)),
          logged := logged w @ [(info, Propagating (result_documentId event) i),
            (info, UpdatedPublished (result_documentId event) i
                     (newStatus (result_is_flowing event))),
            (info, UpdatedDraft (result_documentId event) i
                     (newStatus (result_is_flowing event)))],
          calls := calls w @ [FindOneSpring i Draft, FindOneSpring i Published,
                              DbQueryUpdate i (statusData event (Some nowIso)),
                              DocumentsUpdate i (statusData event None)]\<rparr>))"
  using assms
  by (simp add: propagate_def store_defs Let_def referenceDoc_def statusData_def)

lemma afterCreate_linked:
  assumes "fst (resolveSpring event w) = Inr (Some i)" and "i \<noteq> []"
  shows "afterCreate newDate nowIso event w =
    (case propagate newDate nowIso event i (snd (resolveSpring event w)) of
       (Inl e, w') \<Rightarrow>
         (Inr (), w'\<lparr>logged := logged w' @
             [(error, FailedToPropagate (result_documentId event) (Some i) e)]\<rparr>)
     | (Inr u, w') \<Rightarrow> (Inr u, w'))"
  using assms
  by (cases "resolveSpring event w")
     (simp add: afterCreate_def andThen_def strapi_log_def split: prod.splits sum.splits)

lemma notNewer_wellformed:
  assumes "newDate r = Some rv"
    and "\<forall>s. status_updated_at reference = Some s \<longrightarrow> s \<noteq> [] \<and> newDate s \<noteq> None"
  shows "\<not> notNewer newDate r reference \<longleftrightarrow>
    status_updated_at reference = None \<or>
    (\<exists>s u. status_updated_at reference = Some s \<and> newDate s = Some u \<and> u < rv)"
  using assms
  by (cases "status_updated_at reference") (auto simp: notNewer_def date_le_def Let_def)

lemma resolved_world_fields:
  "spring_draft (snd (resolveSpring event w)) = spring_draft w"
  "spring_published (snd (resolveSpring event w)) = spring_published w"
  "report_spring (snd (resolveSpring event w)) = report_spring w"
  "store_fails (snd (resolveSpring event w)) = store_fails w"
  "logged (snd (resolveSpring event w)) = logged w"
  "calls (snd (resolveSpring event w)) =
     calls w @ (if truthy (springFromEvent event) then []
                else [FindOneReport (result_documentId event)])"
  by (simp_all add: resolveSpring_world)

text \<open>What a run that applied the report went through, and the world it left.\<close>

lemma applied_run:
  assumes "applied w (snd (afterCreate newDate nowIso event w))"
  obtains i d where
    "fst (resolveSpring event w) = Inr (Some i)" "i \<noteq> []"
    "spring_draft w i = Some d"
    "\<not> store_fails w (FindOneSpring i Draft)" "\<not> store_fails w (FindOneSpring i Published)"
    "\<not> notNewer newDate (result_reported_at event) (referenceDoc (spring_published w i) d)"
    "\<not> store_fails w (DocumentsUpdate i (statusData event None))"
    "spring_published w i \<noteq> None \<Longrightarrow> \<not> store_fails w (DbQueryUpdate i (statusData event (Some nowIso)))"
    "afterCreate newDate nowIso event w = (Inr (), snd (afterCreate newDate nowIso event w))"
    "spring_draft (snd (afterCreate newDate nowIso event w)) =
       (spring_draft w)(i := Some (applyData (statusData event None) d))"
    "spring_published (snd (afterCreate newDate nowIso event w)) =
       (spring_published w)(i := map_option (applyData (statusData event (Some nowIso)))
                                   (spring_published w i))"
    "store_fails (snd (afterCreate newDate nowIso event w)) = store_fails w"
    "report_spring (snd (afterCreate newDate nowIso event w)) = report_spring w"
    "writesOf w (snd (afterCreate newDate nowIso event w)) =
       (case spring_published w i of
          None \<Rightarrow> [DocumentsUpdate i (statusData event None)]
        | Some p \<Rightarrow> [DbQueryUpdate i (statusData event (Some nowIso)),
                     DocumentsUpdate i (statusData event None)])"
proof -
  define w1 where "w1 = snd (resolveSpring event w)"
  note fields = resolved_world_fields [of event w, folded w1_def]
  obtain r where res: "resolveSpring event w = (r, w1)"
    by (cases "resolveSpring event w") (simp add: w1_def)
  have linked: "\<exists>i. r = Inr (Some i) \<and> i \<noteq> []"
  proof (rule ccontr)
    assume no: "\<not> (\<exists>i. r = Inr (Some i) \<and> i \<noteq> [])"
    have "\<not> applied w (snd (afterCreate newDate nowIso event w))"
    proof (cases r)
      case (Inl e)
      with res show ?thesis
        by (simp add: afterCreate_def andThen_def applied_def messagesOf_def fields)
    next
      case (Inr x)
      with no have "x = None \<or> x = Some []" by (cases x) auto
      with Inr res show ?thesis
        by (auto simp: afterCreate_def andThen_def strapi_log_def applied_def messagesOf_def fields)
    qed
    with assms show False by simp
  qed
  then obtain i where r: "r = Inr (Some i)" and i: "i \<noteq> []" by blast
  from res r have lk: "fst (resolveSpring event w) = Inr (Some i)" by simp
  have whole: "afterCreate newDate nowIso event w =
    (case propagate newDate nowIso event i w1 of
       (Inl e, w') \<Rightarrow>
         (Inr (), w'\<lparr>logged := logged w' @
             [(error, FailedToPropagate (result_documentId event) (Some i) e)]\<rparr>)
     | (Inr u, w') \<Rightarrow> (Inr u, w'))"
    unfolding w1_def by (rule afterCreate_linked [OF lk i])
  have f1: "\<not> store_fails w (FindOneSpring i Draft)"
  proof
    assume "store_fails w (FindOneSpring i Draft)"
    then have "store_fails w1 (FindOneSpring i Draft)" by (simp add: fields)
    from propagate_draft_lookup_fails [OF this, of newDate nowIso event] assms show False
      by (simp add: whole applied_def messagesOf_def fields)
  qed
  then have f1': "\<not> store_fails w1 (FindOneSpring i Draft)" by (simp add: fields)
  have "spring_draft w i \<noteq> None"
  proof
    assume "spring_draft w i = None"
    then have "spring_draft w1 i = None" by (simp add: fields)
    from propagate_no_draft [OF f1' this, of newDate nowIso event] assms show False
      by (simp add: whole applied_def messagesOf_def fields)
  qed
  then obtain d where d: "spring_draft w i = Some d" by blast
  then have d': "spring_draft w1 i = Some d" by (simp add: fields)
  have f2: "\<not> store_fails w (FindOneSpring i Published)"
  proof
    assume "store_fails w (FindOneSpring i Published)"
    then have "store_fails w1 (FindOneSpring i Published)" by (simp add: fields)
    from propagate_published_lookup_fails [OF f1' d' this, of newDate nowIso event] assms
    show False
      by (simp add: whole applied_def messagesOf_def fields)
  qed
  then have f2': "\<not> store_fails w1 (FindOneSpring i Published)" by (simp add: fields)
  have newer: "\<not> notNewer newDate (result_reported_at event) (referenceDoc (spring_published w i) d)"
  proof
    assume "notNewer newDate (result_reported_at event) (referenceDoc (spring_published w i) d)"
    then have "notNewer newDate (result_reported_at event) (referenceDoc (spring_published w1 i) d)"
      by (simp add: fields)
    from propagate_skips [OF f1' d' f2' this, of nowIso] assms show False
      by (simp add: whole applied_def messagesOf_def fields)
  qed
  show thesis
  proof (cases "spring_published w i")
    case None
    then have n1: "spring_published w1 i = None" by (simp add: fields)
    from newer None have nn: "\<not> notNewer newDate (result_reported_at event) d"
      by (simp add: referenceDoc_def)
    note run = propagate_draft_only [OF f1' d' f2' n1 nn, of nowIso]
    have ok: "\<not> store_fails w (DocumentsUpdate i (statusData event None))"
    proof
      assume "store_fails w (DocumentsUpdate i (statusData event None))"
      with run assms show False
        by (simp add: whole applied_def messagesOf_def fields)
    qed
    show thesis
      by (rule that [OF lk i d f1 f2 newer ok])
         (use run ok None in \<open>simp_all add: whole fields writesOf_def isWrite_def fun_upd_idem\<close>)
  next
    case (Some p)
    then have p1: "spring_published w1 i = Some p" by (simp add: fields)
    from newer Some have nn: "\<not> notNewer newDate (result_reported_at event) p"
      by (simp add: referenceDoc_def)
    note run = propagate_published [OF f1' d' f2' p1 nn, of nowIso]
    have ok1: "\<not> store_fails w (DbQueryUpdate i (statusData event (Some nowIso)))"
    proof
      assume "store_fails w (DbQueryUpdate i (statusData event (Some nowIso)))"
      with run assms show False
        by (simp add: whole applied_def messagesOf_def fields)
    qed
    have ok2: "\<not> store_fails w (DocumentsUpdate i (statusData event None))"
    proof
      assume "store_fails w (DocumentsUpdate i (statusData event None))"
      with run ok1 assms show False
        by (simp add: whole applied_def messagesOf_def fields)
    qed
    show thesis
      by (rule that [OF lk i d f1 f2 newer ok2])
         (use run ok1 ok2 Some in \<open>simp_all add: whole fields writesOf_def isWrite_def\<close>)
  qed
qed

lemma reportEvent_linked:
  "fst (resolveSpring (reportEvent reported_at flowing) w) = Inr (Some ''abc123xyz456'')"
  by (simp add: resolveSpring_result reportEvent_def springFromEvent_def truthy_def
      firstDocumentId_def)

lemma reportEvent_fields:
  "result_documentId (reportEvent reported_at flowing) = ''report1''"
  "result_reported_at (reportEvent reported_at flowing) = reported_at"
  "result_is_flowing (reportEvent reported_at flowing) = flowing"
  by (simp_all add: reportEvent_def)

lemma storeWith_fields:
  "spring_draft (storeWith a b) ''abc123xyz456'' = a"
  "spring_published (storeWith a b) ''abc123xyz456'' = b"
  "store_fails (storeWith a b) c = False"
  "logged (storeWith a b) = []"
  "calls (storeWith a b) = []"
  by (simp_all add: storeWith_def quietStore_def)

lemma isoUtcDate_examples:
  "isoUtcDate ''2024-01-16T08:00:00Z'' = Some 1705392000000"
  "isoUtcDate ''2024-01-16T08:00:01Z'' = Some 1705392001000"
  "isoUtcDate ''2024-01-16T07:59:59Z'' = Some 1705391999000"
  "isoUtcDate ''2024-01-15T10:00:00Z'' = Some 1705312800000"
  by (simp_all add: isoUtcDate_def decimalField_def isDecimalDigit_def digitsValue_def
      daysInMonth_def daysFromCivil_def isLeapYear_def)

section \<open>The newer-than rule\<close>

text \<open>
  Claim C1. For a report linked to a spring whose draft exists, with lookups that return and
  timestamps that are dates, the reference of the comparison is the published version when
  there is one and the draft otherwise. The hook writes exactly when the reference has no
  \<open>status_updated_at\<close> or the report's \<open>reported_at\<close> is strictly later. It then writes
  the report's status and \<open>reported_at\<close>: to the draft alone when there is no published
  version, to the published version and then the draft otherwise, and when the writes return
  both versions carry them. When it does not write, in particular when the two times are
  equal, both versions stay as they were and the hook logs that the report was skipped.
\<close>

theorem newer_than_rule:
  assumes linked: "fst (resolveSpring event w) = Inr (Some i)" "i \<noteq> []"
    and draft: "spring_draft w i = Some d"
    and lookups: "\<not> store_fails w (FindOneSpring i Draft)"
      "\<not> store_fails w (FindOneSpring i Published)"
    and reported: "newDate (result_reported_at event) = Some r"
    and reference: "reference = (case spring_published w i of Some p \<Rightarrow> p | None \<Rightarrow> d)"
    and wellformed:
      "\<forall>s. status_updated_at reference = Some s \<longrightarrow> s \<noteq> [] \<and> newDate s \<noteq> None"
    and run: "w' = snd (afterCreate newDate nowIso event w)"
    and newer: "newer \<longleftrightarrow>
      status_updated_at reference = None \<or>
      (\<exists>s u. status_updated_at reference = Some s \<and> newDate s = Some u \<and> u < r)"
    and status: "status = (if result_is_flowing event then is_flowing else is_not_flowing)"
    and draftData: "draftData =
      \<lparr>data_current_status = status, data_status_updated_at = result_reported_at event,
       data_updatedAt = None\<rparr>"
    and publishedData: "publishedData =
      \<lparr>data_current_status = status, data_status_updated_at = result_reported_at event,
       data_updatedAt = Some nowIso\<rparr>"
  shows "(writesOf w w' \<noteq> [] \<longleftrightarrow> newer)
    \<and> (newer \<longrightarrow>
          writesOf w w' =
            (case spring_published w i of
               None \<Rightarrow> [DocumentsUpdate i draftData]
             | Some p \<Rightarrow>
                 if store_fails w (DbQueryUpdate i publishedData)
                 then [DbQueryUpdate i publishedData]
                 else [DbQueryUpdate i publishedData, DocumentsUpdate i draftData])
          \<and> (\<not> store_fails w (DocumentsUpdate i draftData) \<and>
               (spring_published w i = None \<or> \<not> store_fails w (DbQueryUpdate i publishedData)) \<longrightarrow>
                spring_draft w' i =
                  Some (d\<lparr>current_status := status,
                          status_updated_at := Some (result_reported_at event)\<rparr>)
                \<and> spring_published w' i =
                  map_option (\<lambda>p. p\<lparr>current_status := status,
                                     status_updated_at := Some (result_reported_at event),
                                     updatedAt := nowIso\<rparr>)
                    (spring_published w i)))
    \<and> (\<not> newer \<longrightarrow>
          spring_draft w' = spring_draft w \<and> spring_published w' = spring_published w \<and>
          messagesOf w w' =
            [Propagating (result_documentId event) i,
             SkippingNotNewer (result_documentId event) (result_reported_at event)
               (status_updated_at reference)])"
proof -
  define w1 where "w1 = snd (resolveSpring event w)"
  have d1: "spring_draft w1 i = Some d"
    and l1: "\<not> store_fails w1 (FindOneSpring i Draft)" "\<not> store_fails w1 (FindOneSpring i Published)"
    using draft lookups by (simp_all add: w1_def resolved_world_fields)
  have ref0: "referenceDoc (spring_published w i) d = reference"
    by (simp add: reference referenceDoc_def)
  have rule: "\<not> notNewer newDate (result_reported_at event) reference \<longleftrightarrow> newer"
    unfolding newer by (rule notNewer_wellformed [OF reported wellformed])
  have dd: "statusData event None = draftData"
    and pd: "statusData event (Some nowIso) = publishedData"
    by (simp_all add: statusData_def draftData publishedData status newStatus_def)
  have whole: "afterCreate newDate nowIso event w =
    (case propagate newDate nowIso event i w1 of
       (Inl e, w') \<Rightarrow>
         (Inr (), w'\<lparr>logged := logged w' @
             [(error, FailedToPropagate (result_documentId event) (Some i) e)]\<rparr>)
     | (Inr u, w') \<Rightarrow> (Inr u, w'))"
    unfolding w1_def by (rule afterCreate_linked [OF linked])
  show ?thesis
  proof (cases "notNewer newDate (result_reported_at event) reference")
    case True
    then have "notNewer newDate (result_reported_at event) (referenceDoc (spring_published w1 i) d)"
      by (simp add: ref0 w1_def resolved_world_fields)
    from propagate_skips [OF l1(1) d1 l1(2) this, of nowIso] True rule show ?thesis
      by (simp add: run whole ref0 writesOf_def messagesOf_def isWrite_def w1_def
          resolved_world_fields)
  next
    case False
    show ?thesis
    proof (cases "spring_published w i")
      case None
      then have n1: "spring_published w1 i = None" and rd: "reference = d"
        by (simp_all add: w1_def resolved_world_fields reference)
      from False rd have "\<not> notNewer newDate (result_reported_at event) d" by simp
      from propagate_draft_only [OF l1(1) d1 l1(2) n1 this, of nowIso] False rule None
      show ?thesis
        by (simp add: run whole writesOf_def isWrite_def w1_def resolved_world_fields dd
            applyData_def draftData)
    next
      case (Some p)
      then have p1: "spring_published w1 i = Some p" and rp: "reference = p"
        by (simp_all add: w1_def resolved_world_fields reference)
      from False rp have "\<not> notNewer newDate (result_reported_at event) p" by simp
      from propagate_published [OF l1(1) d1 l1(2) p1 this, of nowIso] False rule Some
      show ?thesis
        by (simp add: run whole writesOf_def isWrite_def w1_def resolved_world_fields dd pd
            applyData_def draftData publishedData)
    qed
  qed
qed

theorem newer_than_rule_witness:
  "writesOf
     (storeWith (Some (exampleSpring\<lparr>status_updated_at := Some ''2024-01-16T08:00:00Z''\<rparr>))
                (Some (exampleSpring\<lparr>status_updated_at := Some ''2024-01-16T08:00:00Z''\<rparr>)))
     (snd (afterCreate isoUtcDate ''2024-01-17T00:00:00Z'' (reportEvent ''2024-01-16T08:00:00Z'' True)
       (storeWith (Some (exampleSpring\<lparr>status_updated_at := Some ''2024-01-16T08:00:00Z''\<rparr>))
                  (Some (exampleSpring\<lparr>status_updated_at := Some ''2024-01-16T08:00:00Z''\<rparr>))))) = []
   \<and> writesOf
     (storeWith (Some (exampleSpring\<lparr>status_updated_at := Some ''2024-01-16T08:00:00Z''\<rparr>))
                (Some (exampleSpring\<lparr>status_updated_at := Some ''2024-01-16T08:00:00Z''\<rparr>)))
     (snd (afterCreate isoUtcDate ''2024-01-17T00:00:00Z'' (reportEvent ''2024-01-16T08:00:01Z'' False)
       (storeWith (Some (exampleSpring\<lparr>status_updated_at := Some ''2024-01-16T08:00:00Z''\<rparr>))
                  (Some (exampleSpring\<lparr>status_updated_at := Some ''2024-01-16T08:00:00Z''\<rparr>)))))
     = [DbQueryUpdate ''abc123xyz456''
          \<lparr>data_current_status = is_not_flowing, data_status_updated_at = ''2024-01-16T08:00:01Z'',
           data_updatedAt = Some ''2024-01-17T00:00:00Z''\<rparr>,
        DocumentsUpdate ''abc123xyz456''
          \<lparr>data_current_status = is_not_flowing, data_status_updated_at = ''2024-01-16T08:00:01Z'',
           data_updatedAt = None\<rparr>]
   \<and> spring_published
     (snd (afterCreate isoUtcDate ''2024-01-17T00:00:00Z'' (reportEvent ''2024-01-16T08:00:01Z'' False)
       (storeWith (Some (exampleSpring\<lparr>status_updated_at := Some ''2024-01-16T08:00:00Z''\<rparr>))
                  (Some (exampleSpring\<lparr>status_updated_at := Some ''2024-01-16T08:00:00Z''\<rparr>)))))
     ''abc123xyz456''
     = Some (exampleSpring\<lparr>current_status := is_not_flowing,
                          status_updated_at := Some ''2024-01-16T08:00:01Z'',
                          updatedAt := ''2024-01-17T00:00:00Z''\<rparr>)
   \<and> writesOf
     (storeWith (Some (exampleSpring\<lparr>status_updated_at := Some ''2024-01-16T08:00:00Z''\<rparr>))
                (Some (exampleSpring\<lparr>status_updated_at := Some ''2024-01-16T08:00:00Z''\<rparr>)))
     (snd (afterCreate isoUtcDate ''2024-01-17T00:00:00Z'' (reportEvent ''2024-01-16T07:59:59Z'' True)
       (storeWith (Some (exampleSpring\<lparr>status_updated_at := Some ''2024-01-16T08:00:00Z''\<rparr>))
                  (Some (exampleSpring\<lparr>status_updated_at := Some ''2024-01-16T08:00:00Z''\<rparr>))))) = []
   \<and> spring_draft
     (snd (afterCreate isoUtcDate ''2024-01-17T00:00:00Z'' (reportEvent ''2024-01-15T10:00:00Z'' True)
       (storeWith (Some exampleSpring) None))) ''abc123xyz456''
     = Some (exampleSpring\<lparr>current_status := is_flowing,
                          status_updated_at := Some ''2024-01-15T10:00:00Z''\<rparr>)"
proof -
  let ?s = "exampleSpring\<lparr>status_updated_at := Some ''2024-01-16T08:00:00Z''\<rparr>"
  let ?W = "storeWith (Some ?s) (Some ?s)"
  let ?V = "storeWith (Some exampleSpring) None"
  have wf: "\<forall>s. status_updated_at (case spring_published ?W ''abc123xyz456'' of
                Some p \<Rightarrow> p | None \<Rightarrow> ?s) = Some s \<longrightarrow> s \<noteq> [] \<and> isoUtcDate s \<noteq> None"
    by (simp add: storeWith_fields isoUtcDate_examples)
  have wf': "\<forall>s. status_updated_at (case spring_published ?V ''abc123xyz456'' of
                Some p \<Rightarrow> p | None \<Rightarrow> exampleSpring) = Some s \<longrightarrow> s \<noteq> [] \<and> isoUtcDate s \<noteq> None"
    by (simp add: storeWith_fields exampleSpring_def)
  have sid: "''abc123xyz456'' \<noteq> []" by simp
  have ok: "\<not> store_fails (storeWith a b) c" for a b c by (simp add: storeWith_fields)
  have dr: "spring_draft (storeWith (Some a) b) ''abc123xyz456'' = Some a" for a b
    by (simp add: storeWith_fields)
  have iso: "isoUtcDate (result_reported_at (reportEvent ''2024-01-16T08:00:00Z'' True)) = Some 1705392000000"
    "isoUtcDate (result_reported_at (reportEvent ''2024-01-16T08:00:01Z'' False)) = Some 1705392001000"
    "isoUtcDate (result_reported_at (reportEvent ''2024-01-16T07:59:59Z'' True)) = Some 1705391999000"
    "isoUtcDate (result_reported_at (reportEvent ''2024-01-15T10:00:00Z'' True)) = Some 1705312800000"
    by (simp_all add: reportEvent_fields isoUtcDate_examples)
  show ?thesis
    using
      newer_than_rule [where nowIso = "''2024-01-17T00:00:00Z''",
        OF reportEvent_linked sid dr ok ok iso(1) refl wf refl refl refl refl refl]
      newer_than_rule [where nowIso = "''2024-01-17T00:00:00Z''",
        OF reportEvent_linked sid dr ok ok iso(2) refl wf refl refl refl refl refl]
      newer_than_rule [where nowIso = "''2024-01-17T00:00:00Z''",
        OF reportEvent_linked sid dr ok ok iso(3) refl wf refl refl refl refl refl]
      newer_than_rule [where nowIso = "''2024-01-17T00:00:00Z''",
        OF reportEvent_linked sid dr ok ok iso(4) refl wf' refl refl refl refl refl]
    by (simp add: reportEvent_fields isoUtcDate_examples storeWith_fields exampleSpring_def)
qed

section \<open>The run of a report on a published spring\<close>

lemma reportEvent_world: "snd (resolveSpring (reportEvent reported_at flowing) w) = w"
  by (simp add: resolveSpring_world reportEvent_def springFromEvent_def truthy_def
      firstDocumentId_def)

lemma flowReport_run:
  "afterCreate isoUtcDate nowIso flowReport publishedStore =
     (Inr (),
      publishedStore
        \<lparr>spring_draft := (spring_draft publishedStore)
           (''abc123xyz456'' := Some (applyData (statusData flowReport None) draftEdit)),
         spring_published := (spring_published publishedStore)
           (''abc123xyz456'' := Some (applyData (statusData flowReport (Some nowIso)) exampleSpring)),
         logged := [(info, Propagating ''report1'' ''abc123xyz456''),
                    (info, UpdatedPublished ''report1'' ''abc123xyz456'' is_flowing),
                    (info, UpdatedDraft ''report1'' ''abc123xyz456'' is_flowing)],
         calls := [FindOneSpring ''abc123xyz456'' Draft, FindOneSpring ''abc123xyz456'' Published,
                   DbQueryUpdate ''abc123xyz456'' (statusData flowReport (Some nowIso)),
                   DocumentsUpdate ''abc123xyz456'' (statusData flowReport None)]\<rparr>)"
proof -
  have sid: "''abc123xyz456'' \<noteq> []" by simp
  have ok: "\<not> store_fails publishedStore c" for c
    by (simp add: publishedStore_def storeWith_fields)
  have d: "spring_draft publishedStore ''abc123xyz456'' = Some draftEdit"
    and p: "spring_published publishedStore ''abc123xyz456'' = Some exampleSpring"
    by (simp_all add: publishedStore_def storeWith_fields)
  have newer: "\<not> notNewer isoUtcDate (result_reported_at flowReport) exampleSpring"
    by (simp add: notNewer_def exampleSpring_def)
  show ?thesis
    using propagate_published [OF ok d ok p newer, of nowIso] ok
    by (simp add: flowReport_def afterCreate_linked [OF reportEvent_linked sid] reportEvent_world
        reportEvent_fields publishedStore_def storeWith_fields newStatus_def)
qed

lemma publishedStore_fields:
  "spring_draft publishedStore ''abc123xyz456'' = Some draftEdit"
  "spring_published publishedStore ''abc123xyz456'' = Some exampleSpring"
  "logged publishedStore = []"
  "calls publishedStore = []"
  by (simp_all add: publishedStore_def storeWith_fields)

lemma flowReport_fields:
  "result_reported_at flowReport = ''2024-01-15T10:00:00Z''"
  "result_is_flowing flowReport"
  "result_documentId flowReport = ''report1''"
  by (simp_all add: flowReport_def reportEvent_fields)

lemma flowReport_applied:
  "applied publishedStore (snd (afterCreate isoUtcDate nowIso flowReport publishedStore))"
  by (simp add: flowReport_run applied_def messagesOf_def publishedStore_fields)

lemma flowReport_linked: "fst (resolveSpring flowReport w) = Inr (Some ''abc123xyz456'')"
  by (simp add: flowReport_def reportEvent_linked)

section \<open>Draft and published version after a propagation\<close>

text \<open>
  Claim C2. When a run applied the report to a spring that has a published version, the draft
  and the published version end with the same \<open>current_status\<close> and the same
  \<open>status_updated_at\<close>: the report's \<open>reported_at\<close>, and \<open>is_flowing\<close> or
  \<open>is_not_flowing\<close> as the report's \<open>is_flowing\<close> is true or false, never \<open>unknown\<close>.
\<close>

theorem draft_and_published_in_sync:
  assumes "w' = snd (afterCreate newDate nowIso event w)"
    and "applied w w'"
    and "fst (resolveSpring event w) = Inr (Some i)"
    and "spring_published w i = Some p"
  shows "\<exists>d' p'. spring_draft w' i = Some d' \<and> spring_published w' i = Some p' \<and>
      current_status d' = current_status p' \<and>
      status_updated_at d' = status_updated_at p' \<and>
      status_updated_at p' = Some (result_reported_at event) \<and>
      current_status p' = (if result_is_flowing event then is_flowing else is_not_flowing) \<and>
      current_status p' \<noteq> unknown"
proof -
  from assms(2) have "applied w (snd (afterCreate newDate nowIso event w))"
    by (simp add: assms(1))
  then show ?thesis
  proof (rule applied_run)
    fix j d
    assume "fst (resolveSpring event w) = Inr (Some j)"
      and dr: "spring_draft (snd (afterCreate newDate nowIso event w)) =
        (spring_draft w)(j := Some (applyData (statusData event None) d))"
      and pu: "spring_published (snd (afterCreate newDate nowIso event w)) =
        (spring_published w)(j := map_option (applyData (statusData event (Some nowIso)))
                                   (spring_published w j))"
    with assms(3) have j: "j = i" by simp
    show ?thesis
      using assms(4)
      by (simp add: assms(1) dr pu j applyData_def statusData_def newStatus_def)
  qed
qed

theorem draft_and_published_in_sync_witness:
  "map_option current_status
     (spring_draft (snd (afterCreate isoUtcDate ''2024-01-15T10:00:07Z'' flowReport publishedStore))
        ''abc123xyz456'') = Some is_flowing
   \<and> map_option current_status
     (spring_published (snd (afterCreate isoUtcDate ''2024-01-15T10:00:07Z'' flowReport publishedStore))
        ''abc123xyz456'') = Some is_flowing
   \<and> map_option status_updated_at
     (spring_draft (snd (afterCreate isoUtcDate ''2024-01-15T10:00:07Z'' flowReport publishedStore))
        ''abc123xyz456'') = Some (Some ''2024-01-15T10:00:00Z'')
   \<and> map_option status_updated_at
     (spring_published (snd (afterCreate isoUtcDate ''2024-01-15T10:00:07Z'' flowReport publishedStore))
        ''abc123xyz456'') = Some (Some ''2024-01-15T10:00:00Z'')"
proof -
  have p: "spring_published publishedStore ''abc123xyz456'' = Some exampleSpring"
    by (simp add: publishedStore_def storeWith_fields)
  have r: "result_reported_at flowReport = ''2024-01-15T10:00:00Z''" "result_is_flowing flowReport"
    by (simp_all add: flowReport_def reportEvent_fields)
  from draft_and_published_in_sync [OF refl flowReport_applied flowReport_linked p,
      of "''2024-01-15T10:00:07Z''"]
  show ?thesis by (auto simp: r)
qed

section \<open>The writes of a propagation\<close>

text \<open>
  The claim that each write names only \<open>current_status\<close> and \<open>status_updated_at\<close> and
  leaves every other field of the published version unchanged does not hold: the write to
  the published version also names \<open>updatedAt\<close>, and the field changes.
\<close>

theorem published_write_counterexample:
  "map_option updatedAt (spring_published publishedStore ''abc123xyz456'')
     = Some ''2024-01-01T00:00:00Z''
   \<and> map_option updatedAt
       (spring_published (snd (afterCreate isoUtcDate ''2024-01-15T10:00:07Z'' flowReport publishedStore))
          ''abc123xyz456'') = Some ''2024-01-15T10:00:07Z''
   \<and> writesOf publishedStore (snd (afterCreate isoUtcDate ''2024-01-15T10:00:07Z'' flowReport publishedStore))
     = [DbQueryUpdate ''abc123xyz456''
          \<lparr>data_current_status = is_flowing, data_status_updated_at = ''2024-01-15T10:00:00Z'',
           data_updatedAt = Some ''2024-01-15T10:00:07Z''\<rparr>,
        DocumentsUpdate ''abc123xyz456''
          \<lparr>data_current_status = is_flowing, data_status_updated_at = ''2024-01-15T10:00:00Z'',
           data_updatedAt = None\<rparr>]"
  by (simp add: flowReport_run writesOf_def isWrite_def applyData_def statusData_def
      publishedStore_fields flowReport_fields newStatus_def)
     (simp add: exampleSpring_def)

text \<open>
  Claim C9, as amended. When a run applied the report to a spring that has a published version,
  it issued exactly two writes, first to the published version and then to the draft. The
  first names \<open>current_status\<close>, \<open>status_updated_at\<close> and \<open>updatedAt\<close> (the time of the
  write), the second \<open>current_status\<close> and \<open>status_updated_at\<close>. Every other field of
  either version is as before, so the published version takes nothing from the draft, and
  no other spring changes.
\<close>

theorem published_then_draft_writes:
  assumes "w' = snd (afterCreate newDate nowIso event w)"
    and "applied w w'"
    and "fst (resolveSpring event w) = Inr (Some i)"
    and "spring_draft w i = Some d"
    and "spring_published w i = Some p"
  shows "writesOf w w' =
      [DbQueryUpdate i \<lparr>data_current_status = newStatus (result_is_flowing event),
                        data_status_updated_at = result_reported_at event,
                        data_updatedAt = Some nowIso\<rparr>,
       DocumentsUpdate i \<lparr>data_current_status = newStatus (result_is_flowing event),
                          data_status_updated_at = result_reported_at event,
                          data_updatedAt = None\<rparr>]
    \<and> spring_published w' i =
        Some (p\<lparr>current_status := newStatus (result_is_flowing event),
                status_updated_at := Some (result_reported_at event),
                updatedAt := nowIso\<rparr>)
    \<and> spring_draft w' i =
        Some (d\<lparr>current_status := newStatus (result_is_flowing event),
                status_updated_at := Some (result_reported_at event)\<rparr>)
    \<and> (\<forall>j. j \<noteq> i \<longrightarrow>
          spring_draft w' j = spring_draft w j \<and> spring_published w' j = spring_published w j)"
proof -
  from assms(2) have "applied w (snd (afterCreate newDate nowIso event w))"
    by (simp add: assms(1))
  then show ?thesis
  proof (rule applied_run)
    fix j e
    assume "fst (resolveSpring event w) = Inr (Some j)"
      and e: "spring_draft w j = Some e"
      and dr: "spring_draft (snd (afterCreate newDate nowIso event w)) =
        (spring_draft w)(j := Some (applyData (statusData event None) e))"
      and pu: "spring_published (snd (afterCreate newDate nowIso event w)) =
        (spring_published w)(j := map_option (applyData (statusData event (Some nowIso)))
                                   (spring_published w j))"
      and wr: "writesOf w (snd (afterCreate newDate nowIso event w)) =
       (case spring_published w j of
          None \<Rightarrow> [DocumentsUpdate j (statusData event None)]
        | Some p \<Rightarrow> [DbQueryUpdate j (statusData event (Some nowIso)),
                     DocumentsUpdate j (statusData event None)])"
    with assms(3) have j: "j = i" by simp
    from e j assms(4) have ed: "e = d" by simp
    show ?thesis
      using assms(5)
      by (simp add: assms(1) dr pu wr j ed applyData_def statusData_def)
  qed
qed

theorem published_then_draft_writes_witness:
  "spring_published (snd (afterCreate isoUtcDate ''2024-01-15T10:00:07Z'' flowReport publishedStore))
     ''abc123xyz456''
     = Some (exampleSpring\<lparr>current_status := is_flowing,
                           status_updated_at := Some ''2024-01-15T10:00:00Z'',
                           updatedAt := ''2024-01-15T10:00:07Z''\<rparr>)
   \<and> spring_draft (snd (afterCreate isoUtcDate ''2024-01-15T10:00:07Z'' flowReport publishedStore))
     ''abc123xyz456''
     = Some (draftEdit\<lparr>current_status := is_flowing,
                       status_updated_at := Some ''2024-01-15T10:00:00Z''\<rparr>)
   \<and> spring_draft (snd (afterCreate isoUtcDate ''2024-01-15T10:00:07Z'' flowReport publishedStore))
     ''other'' = None"
proof -
  have p: "spring_published publishedStore ''abc123xyz456'' = Some exampleSpring"
    and d: "spring_draft publishedStore ''abc123xyz456'' = Some draftEdit"
    and o: "spring_draft publishedStore ''other'' = None"
    by (simp_all add: publishedStore_def storeWith_def quietStore_def)
  have r: "result_reported_at flowReport = ''2024-01-15T10:00:00Z''" "result_is_flowing flowReport"
    by (simp_all add: flowReport_def reportEvent_fields)
  from published_then_draft_writes [OF refl flowReport_applied flowReport_linked d p,
      of "''2024-01-15T10:00:07Z''"]
  show ?thesis by (simp add: r o newStatus_def)
qed

section \<open>Idempotence\<close>

text \<open>A run on a report that is not newer than the reference writes nothing, whatever fails.\<close>

lemma not_newer_run:
  assumes "\<And>i d. fst (resolveSpring event w) = Inr (Some i) \<Longrightarrow> spring_draft w i = Some d \<Longrightarrow>
      notNewer newDate (result_reported_at event) (referenceDoc (spring_published w i) d)"
    and "w' = snd (afterCreate newDate nowIso event w)"
  shows "spring_draft w' = spring_draft w \<and> spring_published w' = spring_published w \<and>
    writesOf w w' = []"
proof -
  define w1 where "w1 = snd (resolveSpring event w)"
  note fields = resolved_world_fields [of event w, folded w1_def]
  obtain r where res: "resolveSpring event w = (r, w1)"
    by (cases "resolveSpring event w") (simp add: w1_def)
  show ?thesis
  proof (cases "\<exists>i. r = Inr (Some i) \<and> i \<noteq> []")
    case False
    show ?thesis
    proof (cases r)
      case (Inl e)
      with res show ?thesis
        by (simp add: assms(2) afterCreate_def andThen_def writesOf_def isWrite_def fields)
    next
      case (Inr x)
      with False have "x = None \<or> x = Some []" by (cases x) auto
      with Inr res show ?thesis
        by (auto simp: assms(2) afterCreate_def andThen_def strapi_log_def writesOf_def
            isWrite_def fields)
    qed
  next
    case True
    then obtain i where r: "r = Inr (Some i)" and i: "i \<noteq> []" by blast
    from res r have lk: "fst (resolveSpring event w) = Inr (Some i)" by simp
    have whole: "afterCreate newDate nowIso event w =
      (case propagate newDate nowIso event i w1 of
         (Inl e, w') \<Rightarrow>
           (Inr (), w'\<lparr>logged := logged w' @
               [(error, FailedToPropagate (result_documentId event) (Some i) e)]\<rparr>)
       | (Inr u, w') \<Rightarrow> (Inr u, w'))"
      unfolding w1_def by (rule afterCreate_linked [OF lk i])
    show ?thesis
    proof (cases "store_fails w1 (FindOneSpring i Draft)")
      case True
      from propagate_draft_lookup_fails [OF this, of newDate nowIso event] show ?thesis
        by (simp add: assms(2) whole writesOf_def isWrite_def fields)
    next
      case f1: False
      show ?thesis
      proof (cases "spring_draft w1 i")
        case None
        from propagate_no_draft [OF f1 this, of newDate nowIso event] show ?thesis
          by (simp add: assms(2) whole writesOf_def isWrite_def fields)
      next
        case (Some d)
        show ?thesis
        proof (cases "store_fails w1 (FindOneSpring i Published)")
          case True
          from propagate_published_lookup_fails [OF f1 Some this, of newDate nowIso event]
          show ?thesis
            by (simp add: assms(2) whole writesOf_def isWrite_def fields)
        next
          case f2: False
          from Some have "spring_draft w i = Some d" by (simp add: fields)
          from assms(1) [OF lk this]
          have "notNewer newDate (result_reported_at event) (referenceDoc (spring_published w1 i) d)"
            by (simp add: fields)
          from propagate_skips [OF f1 Some f2 this, of nowIso] show ?thesis
            by (simp add: assms(2) whole writesOf_def isWrite_def fields)
        qed
      qed
    qed
  qed
qed

text \<open>
  Claim C8. After a run applied a report whose \<open>reported_at\<close> is a date, a second run of
  the same report on the resulting world issues no write and leaves the draft and the
  published version of every spring unchanged, whichever calls of the store fail the second
  time. When the store behaves as in the first run, the second run logs that the report was
  skipped as not newer than the \<open>status_updated_at\<close> it now finds, its own \<open>reported_at\<close>.
\<close>

theorem propagation_idempotent:
  assumes "w1 = snd (afterCreate newDate nowIso event w)"
    and "applied w w1"
    and "result_reported_at event \<noteq> []"
    and "newDate (result_reported_at event) \<noteq> None"
    and "w2 = snd (afterCreate newDate nowIso' event (w1\<lparr>store_fails := faults\<rparr>))"
    and "fst (resolveSpring event w) = Inr (Some s)"
  shows "spring_draft w2 = spring_draft w1 \<and> spring_published w2 = spring_published w1
    \<and> writesOf w1 w2 = []
    \<and> (faults = store_fails w1 \<longrightarrow>
         fst (afterCreate newDate nowIso' event w1) = Inr () \<and>
         messagesOf w1 w2 =
           [Propagating (result_documentId event) s,
            SkippingNotNewer (result_documentId event) (result_reported_at event)
              (Some (result_reported_at event))])"
proof -
  from assms(2) have "applied w (snd (afterCreate newDate nowIso event w))"
    by (simp add: assms(1))
  then show ?thesis
  proof (rule applied_run)
    fix i d
    assume lk: "fst (resolveSpring event w) = Inr (Some i)" and i: "i \<noteq> []"
      and d: "spring_draft w i = Some d"
      and f: "\<not> store_fails w (FindOneSpring i Draft)" "\<not> store_fails w (FindOneSpring i Published)"
      and dr: "spring_draft (snd (afterCreate newDate nowIso event w)) =
        (spring_draft w)(i := Some (applyData (statusData event None) d))"
      and pu: "spring_published (snd (afterCreate newDate nowIso event w)) =
        (spring_published w)(i := map_option (applyData (statusData event (Some nowIso)))
                                   (spring_published w i))"
      and sf: "store_fails (snd (afterCreate newDate nowIso event w)) = store_fails w"
      and rs: "report_spring (snd (afterCreate newDate nowIso event w)) = report_spring w"
    from sf rs have same: "store_fails w1 = store_fails w" "report_spring w1 = report_spring w"
      by (simp_all add: assms(1))
    from dr pu have dr1: "spring_draft w1 i = Some (applyData (statusData event None) d)"
      and pu1: "spring_published w1 i =
        map_option (applyData (statusData event (Some nowIso))) (spring_published w i)"
      by (simp_all add: assms(1))
    from assms(4) obtain t where t: "newDate (result_reported_at event) = Some t" by blast
    have stamp1: "status_updated_at (referenceDoc (spring_published w1 i)
        (applyData (statusData event None) d)) = Some (result_reported_at event)"
      by (cases "spring_published w i")
         (simp_all add: pu1 referenceDoc_def applyData_def statusData_def)
    have skip: "notNewer newDate (result_reported_at event)
        (referenceDoc (spring_published w1 i) (applyData (statusData event None) d))"
      using assms(3) t by (simp add: notNewer_def stamp1 date_le_def Let_def)
    let ?u = "w1\<lparr>store_fails := faults\<rparr>"
    have again: "j = i" if "fst (resolveSpring event ?u) = Inr (Some j)" for j
      using that lk by (simp add: resolveSpring_result same split: if_splits)
    have "spring_draft w2 = spring_draft ?u \<and> spring_published w2 = spring_published ?u \<and>
      writesOf ?u w2 = []"
    proof (rule not_newer_run [OF _ assms(5)])
      fix j e
      assume "fst (resolveSpring event ?u) = Inr (Some j)" and "spring_draft ?u j = Some e"
      with again dr1 skip
      show "notNewer newDate (result_reported_at event) (referenceDoc (spring_published ?u j) e)"
        by auto
    qed
    then have unchanged: "spring_draft w2 = spring_draft w1 \<and>
        spring_published w2 = spring_published w1 \<and> writesOf w1 w2 = []"
      by (simp add: writesOf_def)
    from lk assms(6) have s: "s = i" by simp
    have skipped: "fst (afterCreate newDate nowIso' event w1) = Inr () \<and>
         messagesOf w1 w2 =
           [Propagating (result_documentId event) s,
            SkippingNotNewer (result_documentId event) (result_reported_at event)
              (Some (result_reported_at event))]" if "faults = store_fails w1"
    proof -
      from that have w2: "w2 = snd (afterCreate newDate nowIso' event w1)"
        by (simp add: assms(5))
      define v where "v = snd (resolveSpring event w1)"
      note fields = resolved_world_fields [of event w1, folded v_def]
      have lk1: "fst (resolveSpring event w1) = Inr (Some i)"
        using lk by (simp add: resolveSpring_result same split: if_splits)
      have whole: "afterCreate newDate nowIso' event w1 =
        (case propagate newDate nowIso' event i v of
           (Inl e, w') \<Rightarrow>
             (Inr (), w'\<lparr>logged := logged w' @
                 [(error, FailedToPropagate (result_documentId event) (Some i) e)]\<rparr>)
         | (Inr u, w') \<Rightarrow> (Inr u, w'))"
        unfolding v_def by (rule afterCreate_linked [OF lk1 i])
      have fv: "\<not> store_fails v (FindOneSpring i Draft)"
        "\<not> store_fails v (FindOneSpring i Published)"
        using f by (simp_all add: fields same)
      have dv: "spring_draft v i = Some (applyData (statusData event None) d)"
        by (simp add: fields dr1)
      from skip have skipv: "notNewer newDate (result_reported_at event)
          (referenceDoc (spring_published v i) (applyData (statusData event None) d))"
        by (simp add: fields)
      from propagate_skips [OF fv(1) dv fv(2) skipv, of nowIso'] show ?thesis
        by (simp add: w2 whole stamp1 fields messagesOf_def s)
    qed
    from unchanged skipped show ?thesis by blast
  qed
qed

theorem propagation_idempotent_witness:
  "spring_draft
     (snd (afterCreate isoUtcDate ''2024-01-15T10:05:00Z'' flowReport
        (snd (afterCreate isoUtcDate ''2024-01-15T10:00:07Z'' flowReport publishedStore))))
   = spring_draft (snd (afterCreate isoUtcDate ''2024-01-15T10:00:07Z'' flowReport publishedStore))
   \<and> spring_published
     (snd (afterCreate isoUtcDate ''2024-01-15T10:05:00Z'' flowReport
        (snd (afterCreate isoUtcDate ''2024-01-15T10:00:07Z'' flowReport publishedStore))))
   = spring_published (snd (afterCreate isoUtcDate ''2024-01-15T10:00:07Z'' flowReport publishedStore))
   \<and> writesOf (snd (afterCreate isoUtcDate ''2024-01-15T10:00:07Z'' flowReport publishedStore))
     (snd (afterCreate isoUtcDate ''2024-01-15T10:05:00Z'' flowReport
        (snd (afterCreate isoUtcDate ''2024-01-15T10:00:07Z'' flowReport publishedStore)))) = []
   \<and> messagesOf (snd (afterCreate isoUtcDate ''2024-01-15T10:00:07Z'' flowReport publishedStore))
     (snd (afterCreate isoUtcDate ''2024-01-15T10:05:00Z'' flowReport
        (snd (afterCreate isoUtcDate ''2024-01-15T10:00:07Z'' flowReport publishedStore))))
     = [Propagating ''report1'' ''abc123xyz456'',
        SkippingNotNewer ''report1'' ''2024-01-15T10:00:00Z'' (Some ''2024-01-15T10:00:00Z'')]"
proof -
  let ?w1 = "snd (afterCreate isoUtcDate ''2024-01-15T10:00:07Z'' flowReport publishedStore)"
  have r: "result_reported_at flowReport \<noteq> []" "isoUtcDate (result_reported_at flowReport) \<noteq> None"
    by (simp_all add: flowReport_fields isoUtcDate_examples)
  from propagation_idempotent [where nowIso = "''2024-01-15T10:00:07Z''"
      and nowIso' = "''2024-01-15T10:05:00Z''" and faults = "store_fails ?w1",
      OF refl flowReport_applied r refl flowReport_linked]
  show ?thesis
    by (simp add: flowReport_fields)
qed

section \<open>Exceptions\<close>

text \<open>
  The hook raises exactly when the spring is not resolved from the event and the fetch of the
  report, which stands before the \<^verbatim>\<open>try\<close> block, throws.
\<close>

lemma afterCreate_raises_iff:
  "fst (afterCreate newDate nowIso event w) = Inl e \<longleftrightarrow>
     \<not> truthy (springFromEvent event) \<and> store_fails w (FindOneReport (result_documentId event))
     \<and> e = StoreError"
proof (cases "fst (resolveSpring event w)")
  case (Inl x)
  then have "fst (afterCreate newDate nowIso event w) = Inl x"
    by (cases "resolveSpring event w") (simp add: afterCreate_def andThen_def)
  with Inl show ?thesis
    by (auto simp: resolveSpring_result split: if_splits)
next
  case (Inr x)
  then have "\<exists>u. fst (afterCreate newDate nowIso event w) = Inr u"
    by (cases "resolveSpring event w")
       (auto simp: afterCreate_def andThen_def strapi_log_def split: option.splits prod.splits sum.splits)
  with Inr show ?thesis
    by (auto simp: resolveSpring_result split: if_splits)
qed

text \<open>
  Claim C3 says that every step that can throw, the fetch of the report included, is caught
  inside the hook. On a report whose spring is not in the event and a store that fails on the
  fetch of the report, the hook raises the store's error to its caller and logs nothing.
\<close>

theorem fallback_fetch_raises:
  "afterCreate isoUtcDate ''2024-01-17T00:00:00Z'' unlinkedEvent
     (quietStore\<lparr>store_fails := (\<lambda>c. c = FindOneReport ''report1'')\<rparr>)
   = (Inl StoreError,
      quietStore\<lparr>store_fails := (\<lambda>c. c = FindOneReport ''report1''),
                 calls := [FindOneReport ''report1'']\<rparr>)"
  by (simp add: afterCreate_def resolveSpring_def springFromEvent_def unlinkedEvent_def
      reportEvent_def truthy_def store_defs quietStore_def Let_def)

end
